theory Spec2Isabelle
  imports Main "HOL-Library.Char_ord" "HOL-Library.List_Lexorder" "HOL-Library.Option_ord"
begin

section \<open>Withdrawal engine of gold\_crowdsale: data model\<close>

text \<open>
  The embedding follows \<open>gold_crowdsale/withdrawals/models.py\<close>. A Django model class
  is a record, its \<open>TextChoices\<close> are datatypes, the database is a record of row lists
  (in insertion order) with the auto-increment counters, and a method is a function from
  the in-memory object \<open>self\<close> and the database to a \<open>run\<close>: the object and the
  database afterwards, the log lines and broadcasts it made, and the exception it raised,
  if any. The in-memory object and its row are kept apart, since a field assignment
  reaches the database only through \<open>save()\<close>.
\<close>

datatype tx_status =
    CREATED
  | PENDING
  | WAITING_FOR_ERC20_TRANSFERS
  | WAITING_FOR_GAS_REFILL
  | COMPLETED
  | SKIPPED
  | FAILED
  | SENT_TX_NOT_FOUND
  | ERC20_BALANCE_TOO_LOW

datatype transaction_type = NATIVE | ERC20 | GAS_REFILL

datatype queue_type_t = QUEUE_ERC20 | QUEUE_GAS_REFILL

datatype cycle_status_t = CYCLE_CREATED | CYCLE_PENDING | CYCLE_COMPLETED

datatype py_error =
    TypeError
  | AttributeError
  | DoesNotExist
  | MultipleObjectsReturned

datatype log_level = INFO | WARNING | ERROR

text \<open>An unspent output as the gateway lists it: transaction id and output index.\<close>

type_synonym utxo = "string \<times> nat"

text \<open>
  What a call leaves outside the database. A log line keeps the fixed words of the source's
  message. \<open>BtcSend inputs to amount\<close> is \<open>rpc.construct_and_send_tx(inputs, {to:
  amount}, priv_key)\<close> with the amount in satoshi (the source divides by
  \<open>DECIMALS['BTC']\<close> as a float for the RPC, which is a change of unit only);
  \<open>EthSend sender to value gas_price\<close> and \<open>Erc20Send currency sender to amount
  gas_price\<close> are the two kinds of \<open>web3.eth.sendRawTransaction\<close>.
\<close>

datatype event =
    Log log_level string
  | BtcSend "utxo list" "string option" int
  | EthSend string string int int
  | Erc20Send string string string int int

record withdraw_cycle_row =
  cycle_id :: nat
  currencies :: "string list"
  cycle_status :: cycle_status_t

record withdraw_tx =
  tx_id :: nat
  withdraw_cycle :: "nat option"
  account :: "nat option"
  amount :: "int option"
  currency :: string
  status :: tx_status
  tx_type :: transaction_type
  tx_hash :: "string option"
  gas_tx_count :: "int option"
  gas_price_erc20 :: "int option"
  error_message :: string
  relayed_at :: "int option"

record tx_manager =
  tm_id :: nat
  tm_withdraw_cycle :: "nat option"
  tm_account :: "nat option"
  tx_to_process :: "nat option"
  queue_type :: queue_type_t
  completed :: bool

text \<open>
  Modelled from the spec: the account model \<open>TokenPurchase\<close> (module
  \<open>purchases.models\<close>) is not among the sources. It is the purchaser's account of the
  specification, with the three fields the withdrawal code reads: \<open>id\<close>,
  \<open>eth_address\<close> and \<open>btc_address\<close>.
\<close>

record token_purchase =
  purchase_id :: nat
  eth_address :: string
  btc_address :: string

record db =
  cycles :: "withdraw_cycle_row list"
  txs :: "withdraw_tx list"
  managers :: "tx_manager list"
  purchases :: "token_purchase list"
  next_cycle_id :: nat
  next_tx_id :: nat
  next_manager_id :: nat

text \<open>
  The answers of the collaborators during one call: the settings (\<open>NETWORKS\<close>), the
  clock, the chain gateways and the rate provider. Reads are taken as returning; the
  failures the source handles itself are values: \<open>response_ok\<close> of the unspent
  listing, the success flag of the UTXO send, a raising \<open>sendRawTransaction\<close>
  (\<open>Inl\<close> the error text), \<open>TransactionNotFound\<close> (\<open>None\<close>) and a raising
  confirmation count (\<open>Inl\<close>). \<open>gas_price\<close> is the pair
  \<open>normalize_gas_price(web3.eth.gasPrice)\<close> and \<open>normalize_gas_price\<close> the same
  function on a stored price (module \<open>utils\<close>). The three float computations
  of the source are parameters as well: \<open>token_value_in_eth\<close> is the rate conversion
  of a token balance, \<open>times_1_1\<close> and \<open>times_1_2\<close> are \<open>int(x * 1.1)\<close> and
  \<open>int(x * 1.2)\<close>.
\<close>

record env =
  now :: int
  btc_withdraw_address :: "string option"
  eth_withdraw_address :: string
  gas_address :: string
  get_address_unspent_all :: "string \<Rightarrow> utxo list \<times> int \<times> bool"
  relay_fee :: int
  construct_and_send_tx :: "utxo list \<Rightarrow> string option \<Rightarrow> int \<Rightarrow> string \<times> bool"
  gas_price :: "int \<times> int"
  normalize_gas_price :: "int option \<Rightarrow> int \<times> int"
  get_balance :: "string \<Rightarrow> int"
  send_raw_transaction :: "string + string"
  token_balance_of :: "string \<Rightarrow> string \<Rightarrow> int"
  token_value_in_eth :: "string \<Rightarrow> int \<Rightarrow> int"
  times_1_1 :: "int \<Rightarrow> int"
  times_1_2 :: "int \<Rightarrow> int"
  get_transaction_receipt :: "string option \<Rightarrow> int option"
  get_tx_confirmations :: "string option \<Rightarrow> string + int"

record 'a run =
  self_after :: 'a
  db_after :: db
  trace :: "event list"
  raised :: "py_error option"

definition returns :: "'a \<Rightarrow> db \<Rightarrow> event list \<Rightarrow> 'a run" where
  "returns s d tr = \<lparr>self_after = s, db_after = d, trace = tr, raised = None\<rparr>"

definition raises :: "py_error \<Rightarrow> 'a \<Rightarrow> db \<Rightarrow> event list \<Rightarrow> 'a run" where
  "raises err s d tr = \<lparr>self_after = s, db_after = d, trace = tr, raised = Some err\<rparr>"

subsection \<open>The ORM calls the code makes\<close>

text \<open>
  \<open>save()\<close> of an object that has a primary key updates the row of that key, and
  inserts the object when no row has it.
\<close>

definition save_tx :: "withdraw_tx \<Rightarrow> db \<Rightarrow> db" where
  "save_tx t d =
     d\<lparr>txs := (if \<exists>r \<in> set (txs d). tx_id r = tx_id t
                then map (\<lambda>r. if tx_id r = tx_id t then t else r) (txs d)
                else txs d @ [t])\<rparr>"

definition save_manager :: "tx_manager \<Rightarrow> db \<Rightarrow> db" where
  "save_manager m d =
     d\<lparr>managers := (if \<exists>r \<in> set (managers d). tm_id r = tm_id m
                     then map (\<lambda>r. if tm_id r = tm_id m then m else r) (managers d)
                     else managers d @ [m])\<rparr>"

definition save_cycle :: "withdraw_cycle_row \<Rightarrow> db \<Rightarrow> db" where
  "save_cycle c d =
     d\<lparr>cycles := (if \<exists>r \<in> set (cycles d). cycle_id r = cycle_id c
                   then map (\<lambda>r. if cycle_id r = cycle_id c then c else r) (cycles d)
                   else cycles d @ [c])\<rparr>"

text \<open>
  Following the foreign key \<open>self.account\<close>: \<open>None\<close> when the column is null (reading
  an attribute of it then raises \<open>AttributeError\<close>), \<open>DoesNotExist\<close> when no row has
  the key.
\<close>

definition get_account :: "db \<Rightarrow> nat option \<Rightarrow> py_error + token_purchase" where
  "get_account d ref =
     (case ref of
        None \<Rightarrow> Inl AttributeError
      | Some i \<Rightarrow>
          (case filter (\<lambda>a. purchase_id a = i) (purchases d) of
             [] \<Rightarrow> Inl DoesNotExist
           | a # _ \<Rightarrow> Inr a))"

text \<open>Python's truth value of an optional string: \<open>None\<close> and the empty string are false.\<close>

definition truthy :: "string option \<Rightarrow> bool" where
  "truthy s = (case s of None \<Rightarrow> False | Some v \<Rightarrow> v \<noteq> [])"

section \<open>WithdrawTransaction: processing\<close>

definition process_withdraw_btc :: "env \<Rightarrow> withdraw_tx \<Rightarrow> db \<Rightarrow> withdraw_tx run" where
  "process_withdraw_btc e self d =
     (if currency self \<noteq> ''BTC'' \<and> tx_type self \<noteq> NATIVE then
        returns self d [Log ERROR ''BTC processing called on tx with currency and type'']
      else if status self \<noteq> CREATED then
        returns self d [Log ERROR ''Already processed or processing in progress'']
      else
        (case get_account d (account self) of
           Inl err \<Rightarrow> raises err self d []
         | Inr acc \<Rightarrow>
            (let from_address = btc_address acc;
                 to_address = btc_withdraw_address e;
                 tr1 = [Log INFO ''BTC address''] @
                       (if \<not> truthy to_address
                        then [Log INFO ''Withdraw address is not set. Aborting'']
                        else [])
             in (case get_address_unspent_all e from_address of
                  (inputs, val, response_ok) \<Rightarrow>
                    if \<not> response_ok then
                      returns self d
                        (tr1 @ [Log ERROR ''Failed to fetch information about BTC address''])
                    else
                      (let balance = (if val \<le> 0 then 0 else val);
                           transaction_fee = relay_fee e
                       in if balance < transaction_fee then
                            (let self1 = self\<lparr>status := SKIPPED\<rparr>
                             in returns self1 (save_tx self1 d)
                                  (tr1 @ [Log INFO ''Address skipped: balance < tx fee'']))
                          else
                            (let withdraw_amount = balance - transaction_fee;
                                 tr2 = tr1 @ [Log INFO ''Withdraw tx params'',
                                              Log INFO ''input_params'',
                                              Log INFO ''output_params'',
                                              BtcSend inputs to_address withdraw_amount]
                             in (case construct_and_send_tx e inputs to_address withdraw_amount of
                                  (tx_hash_or_error_msg, send_success) \<Rightarrow>
                                    if send_success then
                                      (let self1 = self\<lparr>tx_hash := Some tx_hash_or_error_msg,
                                                         status := PENDING,
                                                         relayed_at := Some (now e)\<rparr>
                                       in returns self1 (save_tx self1 d)
                                            (tr2 @ [Log INFO ''Withdraw BTC tx sent'']))
                                    else
                                      (let self1 = self\<lparr>status := FAILED,
                                                         error_message := tx_hash_or_error_msg\<rparr>
                                       in returns self1 (save_tx self1 d)
                                            (tr2 @ [Log ERROR ''Withdraw failed for address and amount''])))))))))"

text \<open>
  \<open>TransactionType\<close> and \<open>QueueType\<close> are text choices; the filters
  \<open>queue_type=self.tx_type\<close> and \<open>tx_type=self.queue_type\<close> compare their text:
  \<open>'erc20'\<close> and \<open>'gas_refill'\<close> are in both, \<open>'native'\<close> is no queue type.
\<close>

fun same_text :: "queue_type_t \<Rightarrow> transaction_type \<Rightarrow> bool" where
  "same_text QUEUE_ERC20 ERC20 = True"
| "same_text QUEUE_GAS_REFILL GAS_REFILL = True"
| "same_text _ _ = False"

text \<open>
  The queries of \<open>process_gas_refill\<close>: the queue entries that point at this
  transaction, of its cycle and of its type, and the token withdrawals of its account in
  its cycle.
\<close>

definition refill_queue_manager_set :: "withdraw_tx \<Rightarrow> db \<Rightarrow> tx_manager list" where
  "refill_queue_manager_set self d =
     filter (\<lambda>m. tx_to_process m = Some (tx_id self)
                \<and> tm_withdraw_cycle m = withdraw_cycle self
                \<and> same_text (queue_type m) (tx_type self)) (managers d)"

definition erc20_withdrawals :: "withdraw_tx \<Rightarrow> db \<Rightarrow> withdraw_tx list" where
  "erc20_withdrawals self d =
     filter (\<lambda>w. withdraw_cycle w = withdraw_cycle self
                \<and> account w = account self
                \<and> tx_type w = ERC20) (txs d)"

definition process_gas_refill :: "env \<Rightarrow> withdraw_tx \<Rightarrow> db \<Rightarrow> withdraw_tx run" where
  "process_gas_refill e self d =
     (if currency self \<noteq> ''ETH'' \<and> tx_type self \<noteq> GAS_REFILL then
        returns self d [Log ERROR ''Gas refill processing called on tx with currency and type'']
      else if status self \<noteq> CREATED then
        returns self d [Log ERROR ''WITHDRAWAL: already processed or processing in progress'']
      else if refill_queue_manager_set self d = [] then
        returns self d [Log INFO ''TRANSFER: postponed due multiple txes in queue'']
      else
        (case gas_price e of (gas_price_now, fake_gas_price) \<Rightarrow>
        (case gas_tx_count self of
           None \<Rightarrow> raises TypeError self d []
         | Some n \<Rightarrow>
        (case get_account d (account self) of
           Inl err \<Rightarrow> raises err self d []
         | Inr acc \<Rightarrow>
            (let refill_gas_limit = 21000;
                 refill_gas_fee = gas_price_now * refill_gas_limit;
                 base_erc20_gas_limit = 200000;
                 erc20_gas_limit = base_erc20_gas_limit * n;
                 erc20_gas_fee = gas_price_now * erc20_gas_limit;
                 address_to_refill = eth_address acc;
                 total_erc20_balances_in_eth =
                   sum_list (map (\<lambda>w. token_value_in_eth e (currency w)
                                         (token_balance_of e (currency w) address_to_refill))
                                 (erc20_withdrawals self d));
                 token_withdrawals =
                   map (\<lambda>w. w\<lparr>amount := Some (token_balance_of e (currency w) address_to_refill),
                              gas_price_erc20 := Some gas_price_now\<rparr>)
                       (erc20_withdrawals self d);
                 d1 = fold save_tx token_withdrawals d;
                 total_gas_refill_cost = refill_gas_fee + erc20_gas_fee
             in if total_erc20_balances_in_eth \<le> total_gas_refill_cost then
                  (let self1 = self\<lparr>status := ERC20_BALANCE_TOO_LOW\<rparr>
                   in returns self1
                        (fold save_tx (map (\<lambda>w. w\<lparr>status := SKIPPED\<rparr>) token_withdrawals)
                           (save_tx self1 d1))
                        [Log INFO ''Refill skipped: tokens value in ETH < tx fee''])
                else if get_balance e address_to_refill > times_1_1 e erc20_gas_fee then
                  (let self1 = self\<lparr>status := SKIPPED\<rparr>
                   in returns self1 (save_tx self1 d1)
                        [Log INFO ''Refill skipped: current address balance is enough''])
                else
                  (let refill_amount = times_1_2 e erc20_gas_fee;
                       self1 = self\<lparr>amount := Some refill_amount\<rparr>;
                       d2 = save_tx self1 d1;
                       sending = EthSend (gas_address e) address_to_refill refill_amount
                                   fake_gas_price
                   in (case send_raw_transaction e of
                         Inr sent_tx \<Rightarrow>
                           (let self2 = self1\<lparr>status := PENDING,
                                               tx_hash := Some sent_tx,
                                               gas_price_erc20 := Some gas_price_now,
                                               relayed_at := Some (now e)\<rparr>
                            in returns self2 (save_tx self2 d2)
                                 [sending, Log INFO ''Refill tx sent''])
                       | Inl err \<Rightarrow>
                           (let self2 = self1\<lparr>status := FAILED, error_message := err\<rparr>
                            in returns self2 (save_tx self2 d2)
                                 [sending, Log ERROR ''Refill failed for address and amount'',
                                  Log ERROR ''traceback'']))))))))"

text \<open>
  The queries of \<open>process_withdraw_erc20\<close>: the gas refills of the account in the
  cycle, and the queue entries of the account that point at this transaction.
\<close>

definition refill_transaction :: "withdraw_tx \<Rightarrow> db \<Rightarrow> withdraw_tx list" where
  "refill_transaction self d =
     filter (\<lambda>t. withdraw_cycle t = withdraw_cycle self
                \<and> account t = account self
                \<and> tx_type t = GAS_REFILL) (txs d)"

definition erc20_queue_manager_set :: "withdraw_tx \<Rightarrow> db \<Rightarrow> tx_manager list" where
  "erc20_queue_manager_set self d =
     filter (\<lambda>m. tx_to_process m = Some (tx_id self)
                \<and> tm_withdraw_cycle m = withdraw_cycle self
                \<and> same_text (queue_type m) (tx_type self)
                \<and> tm_account m = account self) (managers d)"

definition erc20_processing_statuses :: "tx_status list" where
  "erc20_processing_statuses = [CREATED, WAITING_FOR_GAS_REFILL, WAITING_FOR_ERC20_TRANSFERS]"

definition process_withdraw_erc20 :: "env \<Rightarrow> withdraw_tx \<Rightarrow> db \<Rightarrow> withdraw_tx run" where
  "process_withdraw_erc20 e self d =
     (if currency self \<notin> set [''USDC'', ''USDT''] \<and> tx_type self \<noteq> ERC20 then
        returns self d [Log ERROR ''ERC20 processing called on tx with currency and type'']
      else if status self \<notin> set erc20_processing_statuses then
        returns self d [Log ERROR ''WITHDRAWAL: already processed or processing in progress'']
      else
        (case refill_transaction self d of
           [] \<Rightarrow>
             (let self1 = self\<lparr>status := SKIPPED\<rparr>
              in returns self1 (save_tx self1 d)
                   [Log WARNING ''Refill transaction not found, skipping withdraw''])
         | _ # _ # _ \<Rightarrow> raises MultipleObjectsReturned self d []
         | [refill] \<Rightarrow>
             if status refill = FAILED then
               (let self1 = self\<lparr>status := SKIPPED\<rparr>
                in returns self1 (save_tx self1 d)
                     [Log INFO ''Withdraw skipped - refill transaction failed''])
             else if status refill \<notin> set [COMPLETED, SKIPPED] then
               returns self d [Log INFO ''WITHDRAW postponed - Refill transaction is not completed yet'']
             else if status self \<in> set (tl erc20_processing_statuses)
                     \<and> erc20_queue_manager_set self d = [] then
               (if status self = WAITING_FOR_GAS_REFILL then
                  (let self1 = self\<lparr>status := WAITING_FOR_ERC20_TRANSFERS\<rparr>
                   in returns self1 (save_tx self1 d)
                        [Log INFO ''Withdraw delayed because other ERC20 withdrawals in queue''])
                else
                  returns self d
                    [Log INFO ''Withdraw delayed because other ERC20 withdrawals in queue''])
             else
               (case get_account d (account self) of
                  Inl err \<Rightarrow> raises err self d []
                | Inr acc \<Rightarrow>
               (case amount self of
                  None \<Rightarrow> raises TypeError self d []
                | Some withdraw_amount \<Rightarrow>
               (case normalize_gas_price e (gas_price_erc20 self) of
                  (gas_price_now, fake_gas_price) \<Rightarrow>
                    (let from_address = eth_address acc;
                         to_address = eth_withdraw_address e;
                         sending = [Log INFO ''Withdraw tx params'',
                                    Erc20Send (currency self) from_address to_address
                                      withdraw_amount fake_gas_price]
                     in (case send_raw_transaction e of
                           Inr sent_tx \<Rightarrow>
                             (let self1 = self\<lparr>tx_hash := Some sent_tx,
                                                status := PENDING,
                                                relayed_at := Some (now e)\<rparr>
                              in returns self1 (save_tx self1 d)
                                   (sending @ [Log INFO ''Withdraw tx sent'']))
                         | Inl err \<Rightarrow>
                             (let self1 = self\<lparr>status := FAILED, error_message := err\<rparr>
                              in returns self1 (save_tx self1 d)
                                   (sending @ [Log ERROR ''Withdraw failed for address and amount'',
                                               Log ERROR ''traceback''])))))))))"

definition all_erc20_withdrawals :: "withdraw_tx \<Rightarrow> db \<Rightarrow> withdraw_tx list" where
  "all_erc20_withdrawals self d =
     filter (\<lambda>w. withdraw_cycle w = withdraw_cycle self
                \<and> account w = account self
                \<and> tx_type w = ERC20) (txs d)"

definition completed_erc20_txes :: "withdraw_tx \<Rightarrow> db \<Rightarrow> withdraw_tx list" where
  "completed_erc20_txes self d =
     filter (\<lambda>w. status w \<in> set [SKIPPED, COMPLETED]) (all_erc20_withdrawals self d)"

text \<open>
  In the \<open>except\<close> branch of \<open>process_withdraw_eth\<close> the object is changed and logged,
  and not saved: the database of the run is the one before the call.
\<close>

definition process_withdraw_eth :: "env \<Rightarrow> withdraw_tx \<Rightarrow> db \<Rightarrow> withdraw_tx run" where
  "process_withdraw_eth e self d =
     (if currency self \<noteq> ''ETH'' \<and> tx_type self \<noteq> NATIVE then
        returns self d [Log ERROR ''WITHDRAWAL: ETH processing called on tx with currency and type'']
      else if status self \<notin> set [CREATED, WAITING_FOR_ERC20_TRANSFERS] then
        returns self d [Log ERROR ''WITHDRAWAL: already processed or processing in progress'']
      else if status self = WAITING_FOR_ERC20_TRANSFERS
              \<and> length (completed_erc20_txes self d) < length (all_erc20_withdrawals self d) then
        returns self d [Log INFO ''Delaying tx because waiting for ERC20 transfer'']
      else
        (case get_account d (account self) of
           Inl err \<Rightarrow> raises err self d []
         | Inr acc \<Rightarrow>
        (case gas_price e of (gas_price_now, fake_gas_price) \<Rightarrow>
           (let gas_limit = 21000;
                total_gas_fee = gas_price_now * gas_limit;
                from_address = eth_address acc;
                to_address = eth_withdraw_address e;
                balance = get_balance e from_address;
                tr1 = [Log INFO ''ETH address'']
            in if balance < total_gas_fee then
                 (let self1 = self\<lparr>status := SKIPPED\<rparr>
                  in returns self1 (save_tx self1 d)
                       (tr1 @ [Log INFO ''Address skipped: balance < tx fee'']))
               else
                 (let withdraw_amount = balance - total_gas_fee;
                      tr2 = tr1 @ [Log INFO ''Withdraw tx params'',
                                   EthSend from_address to_address withdraw_amount fake_gas_price]
                  in (case send_raw_transaction e of
                        Inr sent_tx \<Rightarrow>
                          (let self1 = self\<lparr>status := PENDING,
                                             tx_hash := Some sent_tx,
                                             relayed_at := Some (now e)\<rparr>
                           in returns self1 (save_tx self1 d)
                                (tr2 @ [Log INFO ''Withdraw ETH sent tx'']))
                      | Inl err \<Rightarrow>
                          (let self1 = self\<lparr>status := FAILED, error_message := err\<rparr>
                           in returns self1 d
                                (tr2 @ [Log ERROR ''Withdraw ETH failed for address and amount'',
                                        Log ERROR err,
                                        Log ERROR ''traceback'']))))))))"

definition process_selector :: "env \<Rightarrow> withdraw_tx \<Rightarrow> db \<Rightarrow> withdraw_tx run" where
  "process_selector e self d =
     (if tx_type self = GAS_REFILL then process_gas_refill e self d
      else if tx_type self = ERC20 then process_withdraw_erc20 e self d
      else if currency self = ''BTC'' then process_withdraw_btc e self d
      else if currency self = ''ETH'' then process_withdraw_eth e self d
      else returns self d
             [Log ERROR ''Withdraw processing error: cannot select exact method for withdraw''])"

section \<open>WithdrawTransaction: confirmation\<close>

text \<open>Time is counted in seconds; \<open>timedelta(hours=h)\<close> is \<open>3600 * h\<close>.\<close>

definition check_confirmation_time :: "env \<Rightarrow> int \<Rightarrow> withdraw_tx \<Rightarrow> db \<Rightarrow> withdraw_tx run" where
  "check_confirmation_time e hours self d =
     (case relayed_at self of
        None \<Rightarrow> raises TypeError self d []
      | Some relayed \<Rightarrow>
          if now e < relayed + 3600 * hours then
            returns self d [Log INFO ''Transaction not found, retrying'']
          else
            (let self1 = self\<lparr>status := SENT_TX_NOT_FOUND\<rparr>
             in returns self1 (save_tx self1 d) []))"

definition tx_confirm_eth_erc20 :: "env \<Rightarrow> withdraw_tx \<Rightarrow> db \<Rightarrow> withdraw_tx run" where
  "tx_confirm_eth_erc20 e self d =
     (if status self = COMPLETED then
        returns self d [Log INFO ''WITHDRAW CONFIRMATION: Token transfer already validated'']
      else
        (case get_transaction_receipt e (tx_hash self) of
           None \<Rightarrow> check_confirmation_time e 2 self d
         | Some receipt_status \<Rightarrow>
             if receipt_status = 0 then
               (let self1 = self\<lparr>status := FAILED, error_message := ''reverted''\<rparr>
                in returns self1 (save_tx self1 d)
                     [Log INFO ''WITHDRAW CONFIRMATION: Withdraw reverted''])
             else
               (let self1 = self\<lparr>status := COMPLETED\<rparr>
                in returns self1 (save_tx self1 d)
                     [Log INFO ''WITHDRAW CONFIRMATION: Withdraw completed''])))"

definition tx_confirm_btc :: "env \<Rightarrow> withdraw_tx \<Rightarrow> db \<Rightarrow> withdraw_tx run" where
  "tx_confirm_btc e self d =
     (if status self = COMPLETED then
        returns self d [Log INFO ''WITHDRAW CONFIRMATION: Token transfer already validated'']
      else
        (case get_tx_confirmations e (tx_hash self) of
           Inl err \<Rightarrow>
             (let r = check_confirmation_time e 3 self d
              in r\<lparr>trace := [Log INFO ''Exception when trying to get BTC confirmations'',
                              Log ERROR ''traceback''] @ trace r\<rparr>)
         | Inr confirmations \<Rightarrow>
             if confirmations > 3 then
               (let self1 = self\<lparr>status := COMPLETED\<rparr>
                in returns self1 (save_tx self1 d)
                     [Log INFO ''WITHDRAW CONFIRMATION: Withdraw completed''])
             else returns self d []))"

definition confirm_selector :: "env \<Rightarrow> withdraw_tx \<Rightarrow> db \<Rightarrow> withdraw_tx run" where
  "confirm_selector e self d =
     (if currency self = ''ETH'' \<or> tx_type self = ERC20 then tx_confirm_eth_erc20 e self d
      else if currency self = ''BTC'' then tx_confirm_btc e self d
      else returns self d
             [Log ERROR ''Withdraw processing error: cannot select exact method for withdraw''])"

section \<open>TransactionManager\<close>

text \<open>
  A \<open>TransactionManager\<close> object in memory is more than its row: once
  \<open>tx_to_process\<close> has been read or assigned, Django keeps the related
  \<open>WithdrawTransaction\<close> instance on the object and serves every later read of
  \<open>self.tx_to_process\<close> from it, without asking the database again. An object that a
  query has just loaded has nothing cached; \<open>save()\<close> writes the fields of the row only.
\<close>

record manager_object =
  manager_row :: tx_manager
  cached_tx :: "withdraw_tx option"

definition load_manager :: "tx_manager \<Rightarrow> manager_object" where
  "load_manager m = \<lparr>manager_row = m, cached_tx = None\<rparr>"

text \<open>
  Reading \<open>self.tx_to_process\<close>: the cached instance when there is one; otherwise
  \<open>None\<close> for a null column, and for a key the row it names, which is loaded and then
  cached on the object (\<open>DoesNotExist\<close> when no row has the key).
\<close>

definition get_tx_to_process ::
  "manager_object \<Rightarrow> db \<Rightarrow> py_error + withdraw_tx option \<times> manager_object" where
  "get_tx_to_process self d =
     (case cached_tx self of
        Some t \<Rightarrow> Inr (Some t, self)
      | None \<Rightarrow>
          (case tx_to_process (manager_row self) of
             None \<Rightarrow> Inr (None, self)
           | Some i \<Rightarrow>
               (case filter (\<lambda>t. tx_id t = i) (txs d) of
                  [] \<Rightarrow> Inl DoesNotExist
                | t # _ \<Rightarrow> Inr (Some t, self\<lparr>cached_tx := Some t\<rparr>))))"

text \<open>
  \<open>is_current_tx_finished\<close> reads \<open>self.tx_to_process\<close> twice: for the test
  \<open>not self.tx_to_process\<close> and for \<open>self.tx_to_process.status\<close>. The status it
  compares is the one of the instance on the object, which is the row's status only as
  of the moment the instance was loaded or assigned.
\<close>

definition is_current_tx_finished ::
  "manager_object \<Rightarrow> db \<Rightarrow> py_error + bool \<times> manager_object" where
  "is_current_tx_finished self d =
     (case get_tx_to_process self d of
        Inl err \<Rightarrow> Inl err
      | Inr (None, self1) \<Rightarrow> Inr (True, self1)
      | Inr (Some _, self1) \<Rightarrow>
          (case get_tx_to_process self1 d of
             Inl err \<Rightarrow> Inl err
           | Inr (None, self2) \<Rightarrow> Inl AttributeError
           | Inr (Some t, self2) \<Rightarrow> Inr (status t \<noteq> PENDING, self2)))"

text \<open>
  \<open>order_by\<close> is a stable sort of the rows in insertion order (the database leaves the
  order of equal keys open); a null \<open>account_id\<close> sorts first.
\<close>

definition get_remaining_txes :: "tx_manager \<Rightarrow> db \<Rightarrow> withdraw_tx list" where
  "get_remaining_txes self d =
     (let withdrawals = filter (\<lambda>t. withdraw_cycle t = tm_withdraw_cycle self
                                    \<and> same_text (queue_type self) (tx_type t)) (txs d)
      in if queue_type self = QUEUE_ERC20 then
           sort_key currency
             (filter (\<lambda>t. account t = tm_account self
                         \<and> status t \<in> set [CREATED, WAITING_FOR_ERC20_TRANSFERS,
                                            WAITING_FOR_GAS_REFILL]) withdrawals)
         else
           sort_key account (filter (\<lambda>t. status t = CREATED) withdrawals))"

text \<open>
  The assignment \<open>self.tx_to_process = remaining_withdrawals.first()\<close> sets the key and
  caches the instance given; assigning \<open>None\<close> clears both.
\<close>

definition set_next_tx :: "manager_object \<Rightarrow> db \<Rightarrow> manager_object run" where
  "set_next_tx self d =
     (if completed (manager_row self) then
        returns self d [Log INFO ''WITHDRAW QUEUE: Method to set next tx is called, ignoring'']
      else
        (case is_current_tx_finished self d of
           Inl err \<Rightarrow> raises err self d []
         | Inr (finished, self1) \<Rightarrow>
             if \<not> finished then returns self1 d []
             else
               (case get_remaining_txes (manager_row self1) d of
                  t # _ \<Rightarrow>
                    (let self2 = self1\<lparr>manager_row := (manager_row self1)
                                         \<lparr>tx_to_process := Some (tx_id t)\<rparr>,
                                       cached_tx := Some t\<rparr>
                     in returns self2 (save_manager (manager_row self2) d) [])
                | [] \<Rightarrow>
                    (let self2 = self1\<lparr>manager_row := (manager_row self1)
                                         \<lparr>tx_to_process := None, completed := True\<rparr>,
                                       cached_tx := None\<rparr>
                     in returns self2 (save_manager (manager_row self2) d) []))))"

section \<open>WithdrawCycle\<close>

definition ongoing_tx_statuses :: "tx_status list" where
  "ongoing_tx_statuses =
     [CREATED, PENDING, WAITING_FOR_ERC20_TRANSFERS, WAITING_FOR_GAS_REFILL]"

definition check_for_completion :: "withdraw_cycle_row \<Rightarrow> db \<Rightarrow> withdraw_cycle_row run" where
  "check_for_completion self d =
     (let transactions = filter (\<lambda>t. withdraw_cycle t = Some (cycle_id self)
                                     \<and> status t \<in> set ongoing_tx_statuses) (txs d)
      in if length transactions > 0 then returns self d []
         else
           (let self1 = self\<lparr>cycle_status := CYCLE_COMPLETED\<rparr>
            in returns self1 (save_cycle self1 d) [Log INFO ''Withdraw cycle is finished'']))"

section \<open>The cycle builder\<close>

definition ERC20_CURRENCIES :: "string list" where
  "ERC20_CURRENCIES = [''USDT'', ''USDC'']"

definition NATIVE_CURRENCIES :: "string list" where
  "NATIVE_CURRENCIES = [''ETH'', ''BTC'']"

definition AVAILABLE_CURRENCIES :: "string list" where
  "AVAILABLE_CURRENCIES = NATIVE_CURRENCIES @ ERC20_CURRENCIES"

text \<open>
  The loop over the deduplicated list: at the first currency that is not supported it
  logs the warning and calls \<open>currencies.pop(currency)\<close>. \<open>list.pop\<close> takes an
  index, and a string is none: the call raises \<open>TypeError\<close>. The list is not touched
  before that, so the loop either raises or leaves it as it was.
\<close>

fun pop_unsupported :: "string list \<Rightarrow> event list \<times> py_error option" where
  "pop_unsupported [] = ([], None)"
| "pop_unsupported (c # cs) =
     (if c \<notin> set AVAILABLE_CURRENCIES
      then ([Log WARNING ''Skipping currency: is not in supported list''], Some TypeError)
      else pop_unsupported cs)"

text \<open>A \<open>for\<close> loop over the database that stops at the first exception.\<close>

fun for_each :: "('a \<Rightarrow> db \<Rightarrow> py_error option \<times> db) \<Rightarrow> 'a list \<Rightarrow> db \<Rightarrow> py_error option \<times> db" where
  "for_each body [] d = (None, d)"
| "for_each body (x # xs) d =
     (case body x d of
        (Some err, d1) \<Rightarrow> (Some err, d1)
      | (None, d1) \<Rightarrow> for_each body xs d1)"

text \<open>
  \<open>WithdrawTransaction.objects.create\<close> with the fields the builder gives; the others
  take the defaults of the model.
\<close>

definition create_tx ::
  "nat \<Rightarrow> nat \<Rightarrow> string \<Rightarrow> tx_status \<Rightarrow> transaction_type \<Rightarrow> int option \<Rightarrow> db \<Rightarrow> db" where
  "create_tx cyc acct cur st ty cnt d =
     d\<lparr>txs := txs d @ [\<lparr>tx_id = next_tx_id d, withdraw_cycle = Some cyc, account = Some acct,
                          amount = None, currency = cur, status = st, tx_type = ty,
                          tx_hash = None, gas_tx_count = cnt, gas_price_erc20 = None,
                          error_message = [], relayed_at = None\<rparr>],
       next_tx_id := Suc (next_tx_id d)\<rparr>"

text \<open>
  \<open>get_or_create(withdraw_cycle=cycle, account=account, currency='ETH', gas_tx_count=1,
  tx_type=GAS_REFILL)\<close> looks a row up by all five fields, the count of 1 among them; the
  two \<open>save()\<close> calls and the increment of a row that was found follow.
\<close>

definition gas_tx_get_or_create :: "nat \<Rightarrow> nat \<Rightarrow> db \<Rightarrow> py_error option \<times> db" where
  "gas_tx_get_or_create cyc acct d =
     (case filter (\<lambda>t. withdraw_cycle t = Some cyc \<and> account t = Some acct
                       \<and> currency t = ''ETH'' \<and> gas_tx_count t = Some 1
                       \<and> tx_type t = GAS_REFILL) (txs d) of
        [] \<Rightarrow> (None, create_tx cyc acct ''ETH'' CREATED GAS_REFILL (Some 1) d)
      | [gas_tx] \<Rightarrow>
          (None, save_tx (gas_tx\<lparr>gas_tx_count := map_option (\<lambda>n. n + 1) (gas_tx_count gas_tx)\<rparr>)
                   (save_tx gas_tx d))
      | _ # _ # _ \<Rightarrow> (Some MultipleObjectsReturned, d))"

definition manager_get_or_create ::
  "(tx_manager \<Rightarrow> bool) \<Rightarrow> nat \<Rightarrow> nat option \<Rightarrow> queue_type_t \<Rightarrow> db \<Rightarrow> py_error option \<times> db" where
  "manager_get_or_create lookup cyc acct qt d =
     (case filter lookup (managers d) of
        [] \<Rightarrow>
          (None, d\<lparr>managers := managers d @
                      [\<lparr>tm_id = next_manager_id d, tm_withdraw_cycle = Some cyc,
                        tm_account = acct, tx_to_process = None, queue_type = qt,
                        completed = False\<rparr>],
                    next_manager_id := Suc (next_manager_id d)\<rparr>)
      | [_] \<Rightarrow> (None, d)
      | _ # _ # _ \<Rightarrow> (Some MultipleObjectsReturned, d))"

definition main_tx_type :: "string \<Rightarrow> transaction_type" where
  "main_tx_type cur = (if cur \<in> set NATIVE_CURRENCIES then NATIVE else ERC20)"

text \<open>The body of the two loops, for one account and one currency of the cycle.\<close>

definition plan_withdrawal :: "nat \<Rightarrow> string list \<Rightarrow> nat \<Rightarrow> string \<Rightarrow> db \<Rightarrow> py_error option \<times> db" where
  "plan_withdrawal cyc curs acct cur d =
     (if cur = ''ETH'' then
        (if filter (\<lambda>x. x \<notin> set NATIVE_CURRENCIES) curs = [] then (None, d)
         else (None, create_tx cyc acct cur WAITING_FOR_ERC20_TRANSFERS (main_tx_type cur) None d))
      else if cur \<in> set ERC20_CURRENCIES then
        (case gas_tx_get_or_create cyc acct d of
           (Some err, d1) \<Rightarrow> (Some err, d1)
         | (None, d1) \<Rightarrow>
        (case manager_get_or_create
                (\<lambda>m. tm_withdraw_cycle m = Some cyc \<and> tm_account m = Some acct
                      \<and> queue_type m = QUEUE_ERC20) cyc (Some acct) QUEUE_ERC20 d1 of
           (Some err, d2) \<Rightarrow> (Some err, d2)
         | (None, d2) \<Rightarrow>
        (case manager_get_or_create
                (\<lambda>m. tm_withdraw_cycle m = Some cyc \<and> queue_type m = QUEUE_GAS_REFILL)
                cyc None QUEUE_GAS_REFILL d2 of
           (Some err, d3) \<Rightarrow> (Some err, d3)
         | (None, d3) \<Rightarrow>
             (None, create_tx cyc acct cur WAITING_FOR_GAS_REFILL (main_tx_type cur) None d3))))
      else (None, create_tx cyc acct cur CREATED (main_tx_type cur) None d))"

text \<open>
  \<open>create_withdraw_cycle(currencies)\<close>; the argument is \<open>None\<close> when it is left out.
  \<open>list(set(currencies))\<close> removes the duplicates in an order Python does not fix;
  \<open>remdups\<close> is one such order, and neither the exception nor the sorted list depends on
  it. The field \<open>currencies\<close> of the cycle holds the sorted list (the source stores its
  \<open>str\<close>). An argument that is not a list is outside the type.
\<close>

definition create_withdraw_cycle :: "string list option \<Rightarrow> db \<Rightarrow> unit run" where
  "create_withdraw_cycle arg d =
     (case (case arg of
              None \<Rightarrow> (AVAILABLE_CURRENCIES, [], None)
            | Some [] \<Rightarrow> (AVAILABLE_CURRENCIES, [], None)
            | Some given \<Rightarrow>
                (case pop_unsupported (remdups given) of
                   (tr, err) \<Rightarrow> (remdups given, tr, err))) of
        (curs0, tr, Some err) \<Rightarrow> raises err () d tr
      | (curs0, tr, None) \<Rightarrow>
          (let curs = sort curs0;
               cyc = next_cycle_id d;
               cycle = \<lparr>cycle_id = cyc, currencies = curs, cycle_status = CYCLE_CREATED\<rparr>;
               d1 = d\<lparr>cycles := cycles d @ [cycle], next_cycle_id := Suc cyc\<rparr>
           in (case for_each
                      (\<lambda>acct. for_each (plan_withdrawal cyc curs (purchase_id acct)) curs)
                      (purchases d1) d1 of
                 (Some err, d2) \<Rightarrow> raises err () d2 tr
               | (None, d2) \<Rightarrow>
                   returns () (save_cycle (cycle\<lparr>cycle_status := CYCLE_PENDING\<rparr>) d2) tr)))"

section \<open>Queues, well-formed databases and reachable states\<close>

text \<open>
  The transactions a queue entry watches are those \<open>get_remaining_txes\<close> starts from:
  the transactions of its cycle and of its type, and of its account when it is a token
  queue. It authorizes the one \<open>tx_to_process\<close> points at; this is what the two
  \<open>transactionmanager_set\<close> queries of the processors look for.
\<close>

definition watches :: "tx_manager \<Rightarrow> withdraw_tx \<Rightarrow> bool" where
  "watches m t =
     (tm_withdraw_cycle m = withdraw_cycle t \<and> same_text (queue_type m) (tx_type t)
      \<and> (queue_type m = QUEUE_ERC20 \<longrightarrow> tm_account m = account t))"

definition authorizes :: "tx_manager \<Rightarrow> withdraw_tx \<Rightarrow> bool" where
  "authorizes m t = (watches m t \<and> tx_to_process m = Some (tx_id t))"

text \<open>
  The key the builder's \<open>get_or_create\<close> calls look a queue entry up by: cycle, queue
  type, and the account for a token queue.
\<close>

definition queue_key :: "tx_manager \<Rightarrow> nat option \<times> queue_type_t \<times> nat option" where
  "queue_key m =
     (tm_withdraw_cycle m, queue_type m,
      if queue_type m = QUEUE_ERC20 then tm_account m else None)"

text \<open>
  A well-formed database: primary keys are unique and below the auto-increment counters,
  a transaction refers to a cycle that was created, there is one queue entry per key, no
  token withdrawal is in \<open>CREATED\<close> (the builder makes them
  \<open>WAITING_FOR_GAS_REFILL\<close>), and a \<open>PENDING\<close> token withdrawal or gas refill is the
  one a queue entry authorizes.
\<close>

definition row_ok :: "tx_manager list \<Rightarrow> withdraw_tx \<Rightarrow> bool" where
  "row_ok ms t =
     ((tx_type t = ERC20 \<longrightarrow> status t \<noteq> CREATED)
      \<and> (status t = PENDING \<and> tx_type t \<noteq> NATIVE \<longrightarrow> (\<exists>m \<in> set ms. authorizes m t)))"

definition keys_ok :: "db \<Rightarrow> bool" where
  "keys_ok d =
     (distinct (map tx_id (txs d))
      \<and> (\<forall>t \<in> set (txs d). tx_id t < next_tx_id d
             \<and> (\<forall>c. withdraw_cycle t = Some c \<longrightarrow> c < next_cycle_id d))
      \<and> distinct (map purchase_id (purchases d)))"

definition queues_ok :: "db \<Rightarrow> bool" where
  "queues_ok d =
     (distinct (map tm_id (managers d))
      \<and> (\<forall>m \<in> set (managers d). tm_id m < next_manager_id d)
      \<and> distinct (map queue_key (managers d)))"

definition db_inv :: "db \<Rightarrow> bool" where
  "db_inv d = (keys_ok d \<and> queues_ok d \<and> (\<forall>t \<in> set (txs d). row_ok (managers d) t))"


text \<open>
  The states the engine reaches when every call acts on an object that is up to date:
  from an empty database with the purchasers' accounts, by cycle creation, by the
  periodic driver (which loads a row and calls \<open>process_selector\<close>,
  \<open>confirm_selector\<close>, \<open>set_next_tx\<close> or \<open>check_for_completion\<close> on it, with any
  answers of the collaborators), and by a new purchaser. The database after a call that
  raised counts too: nothing rolls it back. The driver is not part of the module; a
  driver that keeps a queue object across calls is outside these states.
\<close>

definition empty_db :: "token_purchase list \<Rightarrow> db" where
  "empty_db ps =
     \<lparr>cycles = [], txs = [], managers = [], purchases = ps,
      next_cycle_id = 1, next_tx_id = 1, next_manager_id = 1\<rparr>"


text \<open>
  What the statements about the builder speak of: the currencies a call of
  \<open>create_withdraw_cycle\<close> plans for, and the gas refills of an account in a cycle.
\<close>

definition requested_currencies :: "string list option \<Rightarrow> string list" where
  "requested_currencies arg =
     (case arg of
        None \<Rightarrow> sort AVAILABLE_CURRENCIES
      | Some [] \<Rightarrow> sort AVAILABLE_CURRENCIES
      | Some given \<Rightarrow> sort (remdups given))"

definition gas_refills :: "nat \<Rightarrow> nat \<Rightarrow> db \<Rightarrow> withdraw_tx list" where
  "gas_refills cyc acct d =
     filter (\<lambda>t. withdraw_cycle t = Some cyc \<and> account t = Some acct
                 \<and> tx_type t = GAS_REFILL) (txs d)"

section \<open>Observations\<close>

text \<open>A broadcast is any event that is not a log line.\<close>

definition is_broadcast :: "event \<Rightarrow> bool" where
  "is_broadcast ev = (case ev of Log _ _ \<Rightarrow> False | _ \<Rightarrow> True)"

text \<open>
  The statuses of a transaction that the specification calls terminal.
\<close>

definition tx_terminal :: "tx_status \<Rightarrow> bool" where
  "tx_terminal st = (st \<in> set [COMPLETED, SKIPPED, FAILED, SENT_TX_NOT_FOUND])"

section \<open>Vocabulary of the proofs\<close>

text \<open>
  For the proofs about the builder: what a step of the builder leaves as it is, and the
  gas refills of an account after \<open>k\<close> of its token currencies were planned (none,
  or one refill of currency ETH in \<open>CREATED\<close> that counts \<open>k\<close>).
\<close>

definition same_frame :: "db \<Rightarrow> db \<Rightarrow> bool" where
  "same_frame d d' =
     (next_cycle_id d' = next_cycle_id d \<and> purchases d' = purchases d \<and> cycles d' = cycles d)"

definition gas_state :: "nat \<Rightarrow> nat \<Rightarrow> nat \<Rightarrow> db \<Rightarrow> bool" where
  "gas_state cyc acct k d =
     (map (\<lambda>g. (gas_tx_count g, currency g, status g)) (gas_refills cyc acct d)
        = (if k = 0 then [] else [(Some (int k), ''ETH'', CREATED)]))"



section \<open>Example data\<close>

text \<open>
  The data the concrete instances below are evaluated on: one account, one cycle, and
  collaborators that answer nothing useful unless a field is set otherwise.
\<close>

definition base_env :: env where
  "base_env =
     \<lparr>now = 0, btc_withdraw_address = Some ''bc1-operator'',
      eth_withdraw_address = ''0xOperator'', gas_address = ''0xGas'',
      get_address_unspent_all = (\<lambda>a. ([], 0, False)), relay_fee = 1000,
      construct_and_send_tx = (\<lambda>i t a. (''rejected'', False)), gas_price = (1, 1),
      normalize_gas_price = (\<lambda>p. (1, 1)), get_balance = (\<lambda>a. 0),
      send_raw_transaction = Inl ''rejected'', token_balance_of = (\<lambda>c a. 0),
      token_value_in_eth = (\<lambda>c b. b), times_1_1 = (\<lambda>x. x * 11 div 10),
      times_1_2 = (\<lambda>x. x * 12 div 10), get_transaction_receipt = (\<lambda>h. None),
      get_tx_confirmations = (\<lambda>h. Inl ''unavailable'')\<rparr>"

definition example_tx :: "nat \<Rightarrow> string \<Rightarrow> tx_status \<Rightarrow> transaction_type \<Rightarrow> withdraw_tx" where
  "example_tx i cur st ty =
     \<lparr>tx_id = i, withdraw_cycle = Some 1, account = Some 1, amount = None, currency = cur,
      status = st, tx_type = ty, tx_hash = None, gas_tx_count = None,
      gas_price_erc20 = None, error_message = [], relayed_at = None\<rparr>"

definition example_account :: token_purchase where
  "example_account = \<lparr>purchase_id = 1, eth_address = ''0xA1'', btc_address = ''bc1-a1''\<rparr>"

definition example_db :: "withdraw_tx list \<Rightarrow> tx_manager list \<Rightarrow> db" where
  "example_db ts ms =
     \<lparr>cycles = [\<lparr>cycle_id = 1, currencies = [''BTC'', ''ETH'', ''USDC'', ''USDT''],
                  cycle_status = CYCLE_PENDING\<rparr>],
      txs = ts, managers = ms, purchases = [example_account],
      next_cycle_id = 2, next_tx_id = 100, next_manager_id = 100\<rparr>"

definition btc_env :: "int \<Rightarrow> bool \<Rightarrow> env" where
  "btc_env val ok =
     base_env\<lparr>get_address_unspent_all := (\<lambda>a. ([(''utxo-1'', 0)], val, True)),
              construct_and_send_tx := (\<lambda>i t a. (if ok then ''hash-1'' else ''rejected'', ok))\<rparr>"

definition refill_db :: "tx_status \<Rightarrow> tx_status \<Rightarrow> db" where
  "refill_db refill_status token_status =
     example_db [(example_tx 1 ''ETH'' refill_status GAS_REFILL)\<lparr>gas_tx_count := Some 1\<rparr>,
                 example_tx 2 ''USDT'' token_status ERC20]
                [\<lparr>tm_id = 1, tm_withdraw_cycle = Some 1, tm_account = Some 1,
                  tx_to_process = None, queue_type = QUEUE_ERC20, completed = False\<rparr>,
                 \<lparr>tm_id = 2, tm_withdraw_cycle = Some 1, tm_account = None,
                  tx_to_process = None, queue_type = QUEUE_GAS_REFILL, completed = False\<rparr>]"

definition eth_env :: "int \<Rightarrow> string + string \<Rightarrow> env" where
  "eth_env bal sent = base_env\<lparr>get_balance := (\<lambda>a. bal), send_raw_transaction := sent\<rparr>"

definition too_low_env :: env where
  "too_low_env = base_env\<lparr>token_balance_of := (\<lambda>c a. 90)\<rparr>"

definition too_low_db :: db where
  "too_low_db =
     example_db [(example_tx 1 ''ETH'' CREATED GAS_REFILL)\<lparr>gas_tx_count := Some 1\<rparr>,
                 example_tx 2 ''USDT'' WAITING_FOR_GAS_REFILL ERC20]
                [\<lparr>tm_id = 1, tm_withdraw_cycle = Some 1, tm_account = Some 1,
                  tx_to_process = None, queue_type = QUEUE_ERC20, completed = False\<rparr>,
                 \<lparr>tm_id = 2, tm_withdraw_cycle = Some 1, tm_account = None,
                  tx_to_process = Some 1, queue_type = QUEUE_GAS_REFILL, completed = False\<rparr>]"

definition confirm_env :: "int option \<Rightarrow> env" where
  "confirm_env receipt = base_env\<lparr>get_transaction_receipt := (\<lambda>h. receipt), now := 10000\<rparr>"

definition sent_tx :: "nat \<Rightarrow> string \<Rightarrow> tx_status \<Rightarrow> transaction_type \<Rightarrow> withdraw_tx" where
  "sent_tx i cur st ty = (example_tx i cur st ty)\<lparr>tx_hash := Some ''hash-1'', relayed_at := Some 0\<rparr>"

definition done_manager :: tx_manager where
  "done_manager = \<lparr>tm_id = 1, tm_withdraw_cycle = Some 1, tm_account = Some 1,
                    tx_to_process = None, queue_type = QUEUE_ERC20, completed = True\<rparr>"
















section \<open>Basic facts\<close>

lemma returns_simps:
  "self_after (returns s d tr) = s"
  "db_after (returns s d tr) = d"
  "trace (returns s d tr) = tr"
  "raised (returns s d tr) = None"
  by (simp_all add: returns_def)

lemma save_tx_set: "set (txs (save_tx s d)) = insert s {t \<in> set (txs d). tx_id t \<noteq> tx_id s}"
  by (auto simp add: save_tx_def)

lemma save_tx_mem: "s \<in> set (txs (save_tx s d))"
  by (simp add: save_tx_set)

lemma save_tx_fields [simp]:
  "managers (save_tx s d) = managers d"
  "cycles (save_tx s d) = cycles d"
  "purchases (save_tx s d) = purchases d"
  "next_tx_id (save_tx s d) = next_tx_id d"
  "next_manager_id (save_tx s d) = next_manager_id d"
  "next_cycle_id (save_tx s d) = next_cycle_id d"
  by (simp_all add: save_tx_def)

lemma save_tx_existing:
  "tx_id s \<in> tx_id ` set (txs d) \<Longrightarrow>
     txs (save_tx s d) = map (\<lambda>r. if tx_id r = tx_id s then s else r) (txs d)"
  by (auto simp add: save_tx_def)

lemma save_tx_ids:
  "tx_id s \<in> tx_id ` set (txs d) \<Longrightarrow> map tx_id (txs (save_tx s d)) = map tx_id (txs d)"
  by (simp add: save_tx_existing o_def cong: map_cong)

lemma distinct_of_map: "distinct (map f xs) \<Longrightarrow> distinct xs"
  by (simp add: distinct_map)

lemma save_tx_row:
  assumes "distinct (map tx_id (txs d))" and "w \<in> set (txs d)" and "tx_id s = tx_id w"
  shows "txs (save_tx s d) = map (\<lambda>r. if r = w then s else r) (txs d)"
proof -
  have "tx_id s \<in> tx_id ` set (txs d)" using assms by force
  moreover have "\<And>r. r \<in> set (txs d) \<Longrightarrow> (tx_id r = tx_id s) = (r = w)"
    using assms by (metis distinct_map inj_onD)
  ultimately show ?thesis
    by (simp add: save_tx_existing cong: map_cong)
qed

lemma fold_save_tx_rows:
  assumes "distinct (map tx_id (txs d))" and "set ws \<subseteq> set (txs d)" and "distinct ws"
    and "\<And>w. tx_id (f w) = tx_id w"
  shows "txs (fold save_tx (map f ws) d) = map (\<lambda>r. if r \<in> set ws then f r else r) (txs d)"
  using assms(1-3)
proof (induction ws arbitrary: d)
  case Nil
  then show ?case by simp
next
  case (Cons w ws)
  let ?d1 = "save_tx (f w) d"
  have w: "w \<in> set (txs d)" and nw: "w \<notin> set ws" using Cons.prems by auto
  have inj: "inj_on tx_id (set (txs d))" using Cons.prems(1) by (simp add: distinct_map)
  have tx1: "txs ?d1 = map (\<lambda>r. if r = w then f w else r) (txs d)"
    using save_tx_row [OF Cons.prems(1) w] assms(4) by simp
  have ids1: "map tx_id (txs ?d1) = map tx_id (txs d)"
    by (simp add: tx1 o_def assms(4) cong: map_cong)
  have d1: "distinct (map tx_id (txs ?d1))" using Cons.prems(1) ids1 by simp
  have sub: "set ws \<subseteq> set (txs ?d1)"
    using Cons.prems(2) nw by (auto simp add: tx1)
  have fw: "f w \<notin> set ws"
  proof
    assume "f w \<in> set ws"
    then have "f w \<in> set (txs d)" using Cons.prems(2) by auto
    then have "f w = w" using inj w assms(4) by (metis inj_onD)
    then show False using \<open>f w \<in> set ws\<close> nw by simp
  qed
  have "txs (fold save_tx (map f (w # ws)) d) = txs (fold save_tx (map f ws) ?d1)" by simp
  also have "\<dots> = map (\<lambda>r. if r \<in> set ws then f r else r) (txs ?d1)"
    using Cons.IH [OF d1 sub] Cons.prems(3) by simp
  also have "\<dots> = map (\<lambda>r. if r \<in> set (w # ws) then f r else r) (txs d)"
    using fw by (auto simp add: tx1)
  finally show ?case .
qed

lemma fold_save_tx_fields [simp]:
  "managers (fold save_tx ss d) = managers d"
  "purchases (fold save_tx ss d) = purchases d"
  "next_tx_id (fold save_tx ss d) = next_tx_id d"
  "next_manager_id (fold save_tx ss d) = next_manager_id d"
  "cycles (fold save_tx ss d) = cycles d"
  "next_cycle_id (fold save_tx ss d) = next_cycle_id d"
  by (induction ss arbitrary: d) simp_all

text \<open>
  The rows after the branch of \<open>process_gas_refill\<close> that gives the refill up:
  the token withdrawals saved in the first loop, the refill saved, the token withdrawals
  saved again in the second loop.
\<close>

lemma too_low_rows:
  assumes dist: "distinct (map tx_id (txs d))" and self: "self \<in> set (txs d)"
    and ty: "tx_type self \<noteq> ERC20"
    and f: "\<And>w. tx_id (f w) = tx_id w" and g: "\<And>w. tx_id (g w) = tx_id w"
    and s1: "tx_id self1 = tx_id self"
  shows "txs (fold save_tx (map g (map f (erc20_withdrawals self d)))
              (save_tx self1 (fold save_tx (map f (erc20_withdrawals self d)) d)))
       = map (\<lambda>r. if r \<in> set (erc20_withdrawals self d) then g (f r)
                   else if r = self then self1 else r) (txs d)"
proof -
  let ?W = "erc20_withdrawals self d"
  let ?d1 = "fold save_tx (map f ?W) d"
  let ?d2 = "save_tx self1 ?d1"
  have inj: "inj_on tx_id (set (txs d))" using dist by (simp add: distinct_map)
  have W: "set ?W \<subseteq> set (txs d)" "distinct ?W"
    using distinct_of_map [OF dist] by (auto simp add: erc20_withdrawals_def)
  have selfW: "self \<notin> set ?W" using ty by (simp add: erc20_withdrawals_def)
  have t1: "txs ?d1 = map (\<lambda>r. if r \<in> set ?W then f r else r) (txs d)"
    by (rule fold_save_tx_rows [OF dist W f])
  have ids1: "map tx_id (txs ?d1) = map tx_id (txs d)"
    by (simp add: t1 o_def f cong: map_cong)
  have self1: "self \<in> set (txs ?d1)" using self selfW by (force simp add: t1)
  have t2: "txs ?d2 = map (\<lambda>r. if r = self then self1 else r) (txs ?d1)"
  proof (rule save_tx_row)
    show "distinct (map tx_id (txs ?d1))" by (simp add: ids1 dist)
    show "self \<in> set (txs ?d1)" by (rule self1)
    show "tx_id self1 = tx_id self" by (rule s1)
  qed
  have "map tx_id (txs ?d2) = map tx_id (txs ?d1)"
    unfolding t2 map_map by (rule map_cong) (simp_all add: s1)
  then have ids2: "map tx_id (txs ?d2) = map tx_id (txs d)"
    using ids1 by simp
  have fne: "\<And>w. w \<in> set ?W \<Longrightarrow> f w \<noteq> self"
    using selfW W(1) self inj f by (metis inj_onD subsetD)
  have sub2: "set (map f ?W) \<subseteq> set (txs ?d2)"
    using fne by (auto simp add: t2 t1 dest: subsetD [OF W(1)])
  have distf: "distinct (map f ?W)"
  proof -
    have "distinct (map tx_id (map f ?W))"
      using dist by (simp add: o_def f erc20_withdrawals_def distinct_map_filter)
    then show ?thesis by (rule distinct_of_map)
  qed
  have t3: "txs (fold save_tx (map g (map f ?W)) ?d2)
          = map (\<lambda>r. if r \<in> set (map f ?W) then g r else r) (txs ?d2)"
  proof (rule fold_save_tx_rows)
    show "distinct (map tx_id (txs ?d2))" by (simp add: ids2 dist)
    show "set (map f ?W) \<subseteq> set (txs ?d2)" by (rule sub2)
    show "distinct (map f ?W)" by (rule distf)
    show "\<And>w. tx_id (g w) = tx_id w" by (rule g)
  qed
  have "map (\<lambda>r. if r \<in> set (map f ?W) then g r else r) (txs ?d2)
      = map (\<lambda>r. if r \<in> set ?W then g (f r) else if r = self then self1 else r) (txs d)"
    unfolding t2 t1 map_map
  proof (rule map_cong [OF refl], goal_cases)
    case (1 r)
    have a: "r \<notin> set ?W \<Longrightarrow> r \<notin> f ` set ?W"
    proof
      assume "r \<notin> set ?W" "r \<in> f ` set ?W"
      then obtain w where w: "w \<in> set ?W" "r = f w" by auto
      then have "tx_id r = tx_id w" by (simp add: f)
      then have "r = w" using inj 1 w(1) W(1) by (metis inj_onD subsetD)
      then show False using w(1) \<open>r \<notin> set ?W\<close> by simp
    qed
    have b: "self1 \<notin> f ` set ?W"
    proof
      assume "self1 \<in> f ` set ?W"
      then obtain w where w: "w \<in> set ?W" "self1 = f w" by auto
      then have "tx_id w = tx_id self" using s1 f by metis
      then have "w = self" using inj self w(1) W(1) by (metis inj_onD subsetD)
      then show False using w(1) selfW by simp
    qed
    show ?case using a b fne selfW by auto
  qed
  then show ?thesis using t3 by simp
qed

section \<open>The UTXO native withdrawal\<close>

text \<open>
  C4 (as amended). For a BTC native withdrawal in status \<open>CREATED\<close> whose unspent
  outputs were fetched, the status becomes \<open>SKIPPED\<close> exactly when the balance (a
  negative value counted as 0) is strictly below the relay fee. A balance equal to the fee
  is not skipped: a transaction of amount 0 is sent, and the status is \<open>PENDING\<close> when
  the send succeeds and \<open>FAILED\<close> when it does not. Every outcome is saved.
\<close>

theorem btc_skipped_iff:
  assumes "currency self = ''BTC''" and "tx_type self = NATIVE" and "status self = CREATED"
    and "get_account d (account self) = Inr acc"
    and "get_address_unspent_all e (btc_address acc) = (inputs, val, True)"
  shows "(status (self_after (process_withdraw_btc e self d)) = SKIPPED
            \<longleftrightarrow> max 0 val < relay_fee e)
       \<and> (max 0 val = relay_fee e \<longrightarrow>
            BtcSend inputs (btc_withdraw_address e) 0
              \<in> set (trace (process_withdraw_btc e self d))
          \<and> status (self_after (process_withdraw_btc e self d)) =
              (if snd (construct_and_send_tx e inputs (btc_withdraw_address e) 0)
               then PENDING else FAILED))
       \<and> self_after (process_withdraw_btc e self d)
            \<in> set (txs (db_after (process_withdraw_btc e self d)))"
  using assms
  by (auto simp add: process_withdraw_btc_def Let_def returns_def max_def save_tx_mem
      split: prod.splits)

theorem btc_skipped_iff_witness:
  "status (self_after (process_withdraw_btc (btc_env 999 True)
       (example_tx 1 ''BTC'' CREATED NATIVE)
       (example_db [example_tx 1 ''BTC'' CREATED NATIVE] []))) = SKIPPED
   \<and> max 0 999 < relay_fee (btc_env 999 True)"
  using btc_skipped_iff [of "example_tx 1 ''BTC'' CREATED NATIVE"
      "example_db [example_tx 1 ''BTC'' CREATED NATIVE] []" example_account
      "btc_env 999 True" "[(''utxo-1'', 0)]" 999]
  by (simp add: example_tx_def example_db_def example_account_def btc_env_def base_env_def
      get_account_def)

text \<open>
  The claim as stated fails where the balance equals the fee: with a balance of 1000 and a
  relay fee of 1000 the transaction is sent with amount 0 and becomes \<open>PENDING\<close>.
\<close>

theorem btc_balance_equal_fee_counterexample:
  "get_address_unspent_all (btc_env 1000 True) ''bc1-a1'' = ([(''utxo-1'', 0)], 1000, True)
   \<and> relay_fee (btc_env 1000 True) = 1000
   \<and> status (self_after (process_withdraw_btc (btc_env 1000 True)
        (example_tx 1 ''BTC'' CREATED NATIVE)
        (example_db [example_tx 1 ''BTC'' CREATED NATIVE] []))) = PENDING
   \<and> BtcSend [(''utxo-1'', 0)] (Some ''bc1-operator'') 0
        \<in> set (trace (process_withdraw_btc (btc_env 1000 True)
             (example_tx 1 ''BTC'' CREATED NATIVE)
             (example_db [example_tx 1 ''BTC'' CREATED NATIVE] [])))"
  by (simp add: process_withdraw_btc_def example_tx_def example_db_def example_account_def
      btc_env_def base_env_def get_account_def truthy_def returns_def Let_def)

text \<open>
  C10. When the configured destination address is unset (\<open>None\<close> or empty), a
  \<open>CREATED\<close> BTC transaction with fetched outputs and a balance of at least the fee logs
  that it is aborting and goes on: the transaction is built with the missing destination
  as its output key and sent, and the status follows the send.
\<close>

theorem btc_unset_destination:
  assumes "currency self = ''BTC''" and "status self = CREATED"
    and "get_account d (account self) = Inr acc"
    and "get_address_unspent_all e (btc_address acc) = (inputs, val, True)"
    and "relay_fee e \<le> max 0 val"
    and "\<not> truthy (btc_withdraw_address e)"
  shows "Log INFO ''Withdraw address is not set. Aborting''
            \<in> set (trace (process_withdraw_btc e self d))
       \<and> BtcSend inputs (btc_withdraw_address e) (max 0 val - relay_fee e)
            \<in> set (trace (process_withdraw_btc e self d))
       \<and> status (self_after (process_withdraw_btc e self d)) =
            (if snd (construct_and_send_tx e inputs (btc_withdraw_address e)
                       (max 0 val - relay_fee e))
             then PENDING else FAILED)
       \<and> self_after (process_withdraw_btc e self d)
            \<in> set (txs (db_after (process_withdraw_btc e self d)))
       \<and> raised (process_withdraw_btc e self d) = None"
  using assms
  by (auto simp add: process_withdraw_btc_def Let_def returns_def max_def save_tx_mem
      split: prod.splits if_splits)

theorem btc_unset_destination_witness:
  "\<not> truthy (btc_withdraw_address ((btc_env 5000 True)\<lparr>btc_withdraw_address := None\<rparr>))
   \<and> BtcSend [(''utxo-1'', 0)] None 4000
        \<in> set (trace (process_withdraw_btc
             ((btc_env 5000 True)\<lparr>btc_withdraw_address := None\<rparr>)
             (example_tx 1 ''BTC'' CREATED NATIVE)
             (example_db [example_tx 1 ''BTC'' CREATED NATIVE] [])))
   \<and> status (self_after (process_withdraw_btc
             ((btc_env 5000 True)\<lparr>btc_withdraw_address := None\<rparr>)
             (example_tx 1 ''BTC'' CREATED NATIVE)
             (example_db [example_tx 1 ''BTC'' CREATED NATIVE] []))) = PENDING"
  using btc_unset_destination [of "example_tx 1 ''BTC'' CREATED NATIVE"
      "example_db [example_tx 1 ''BTC'' CREATED NATIVE] []" example_account
      "(btc_env 5000 True)\<lparr>btc_withdraw_address := None\<rparr>" "[(''utxo-1'', 0)]" 5000]
  by (simp add: example_tx_def example_db_def example_account_def btc_env_def base_env_def
      get_account_def truthy_def)

lemma no_broadcast_logs [simp]: "is_broadcast (Log l s) = False"
  by (simp add: is_broadcast_def)

section \<open>The token withdrawal and its gas refill\<close>




section \<open>The guards of the processors\<close>

text \<open>
  Each processor returns at once, without a change, when both the currency and the type
  are foreign to it.
\<close>

lemma processors_ignore_double_mismatch:
  "currency self \<noteq> ''BTC'' \<Longrightarrow> tx_type self \<noteq> NATIVE \<Longrightarrow>
     self_after (process_withdraw_btc e self d) = self \<and> db_after (process_withdraw_btc e self d) = d
     \<and> raised (process_withdraw_btc e self d) = None"
  "currency self \<noteq> ''ETH'' \<Longrightarrow> tx_type self \<noteq> NATIVE \<Longrightarrow>
     self_after (process_withdraw_eth e self d) = self \<and> db_after (process_withdraw_eth e self d) = d
     \<and> raised (process_withdraw_eth e self d) = None"
  "currency self \<noteq> ''ETH'' \<Longrightarrow> tx_type self \<noteq> GAS_REFILL \<Longrightarrow>
     self_after (process_gas_refill e self d) = self \<and> db_after (process_gas_refill e self d) = d
     \<and> raised (process_gas_refill e self d) = None"
  "currency self \<notin> {''USDC'', ''USDT''} \<Longrightarrow> tx_type self \<noteq> ERC20 \<Longrightarrow>
     self_after (process_withdraw_erc20 e self d) = self \<and> db_after (process_withdraw_erc20 e self d) = d
     \<and> raised (process_withdraw_erc20 e self d) = None"
  by (simp_all add: process_withdraw_btc_def process_withdraw_eth_def process_gas_refill_def
      process_withdraw_erc20_def returns_def)

text \<open>
  C7. The guards join the two tests with \<open>and\<close>, so a transaction that mismatches in
  one of them only is processed. \<open>process_withdraw_eth\<close> on the gas refill row the
  builder makes (currency ETH, type \<open>GAS_REFILL\<close>) marks and saves it \<open>SKIPPED\<close> on
  an empty address; \<open>process_withdraw_btc\<close> on a native ETH row sweeps the UTXO address
  of the account and marks the row \<open>PENDING\<close>.
\<close>

theorem single_mismatch_mutates:
  "tx_type ((example_tx 1 ''ETH'' CREATED GAS_REFILL)\<lparr>gas_tx_count := Some 1\<rparr>) \<noteq> NATIVE
   \<and> status (self_after (process_withdraw_eth base_env
        ((example_tx 1 ''ETH'' CREATED GAS_REFILL)\<lparr>gas_tx_count := Some 1\<rparr>)
        (refill_db CREATED WAITING_FOR_GAS_REFILL))) = SKIPPED
   \<and> db_after (process_withdraw_eth base_env
        ((example_tx 1 ''ETH'' CREATED GAS_REFILL)\<lparr>gas_tx_count := Some 1\<rparr>)
        (refill_db CREATED WAITING_FOR_GAS_REFILL)) = refill_db SKIPPED WAITING_FOR_GAS_REFILL
   \<and> currency (example_tx 3 ''ETH'' CREATED NATIVE) \<noteq> ''BTC''
   \<and> status (self_after (process_withdraw_btc (btc_env 5000 True)
        (example_tx 3 ''ETH'' CREATED NATIVE)
        (example_db [example_tx 3 ''ETH'' CREATED NATIVE] []))) = PENDING
   \<and> BtcSend [(''utxo-1'', 0)] (Some ''bc1-operator'') 4000
        \<in> set (trace (process_withdraw_btc (btc_env 5000 True)
             (example_tx 3 ''ETH'' CREATED NATIVE)
             (example_db [example_tx 3 ''ETH'' CREATED NATIVE] [])))"
  by (simp add: process_withdraw_eth_def process_withdraw_btc_def example_tx_def example_db_def
      example_account_def refill_db_def base_env_def btc_env_def get_account_def truthy_def
      returns_def save_tx_def Let_def)

section \<open>The account-chain native sweep\<close>

text \<open>
  When the send raises, \<open>process_withdraw_eth\<close> sets \<open>FAILED\<close> and the error text on
  the object and leaves the database as it was.
\<close>

lemma eth_send_failure_not_saved:
  assumes "currency self = ''ETH''" and "status self = CREATED"
    and "get_account d (account self) = Inr acc"
    and "fst (gas_price e) * 21000 \<le> get_balance e (eth_address acc)"
    and "send_raw_transaction e = Inl err"
  shows "status (self_after (process_withdraw_eth e self d)) = FAILED
       \<and> error_message (self_after (process_withdraw_eth e self d)) = err
       \<and> db_after (process_withdraw_eth e self d) = d"
  using assms
  by (auto simp add: process_withdraw_eth_def Let_def returns_def split: prod.splits)

text \<open>
  C8. With a balance of 50000, a fee of 21000 and a send that raises \<open>rejected\<close>, the
  object is \<open>FAILED\<close> with the error text, the row in the database is still
  \<open>CREATED\<close>, and the next pass over that database sends the same sweep again.
\<close>

theorem eth_send_failure_is_not_persisted:
  "status (self_after (process_withdraw_eth (eth_env 50000 (Inl ''rejected''))
       (example_tx 3 ''ETH'' CREATED NATIVE)
       (example_db [example_tx 3 ''ETH'' CREATED NATIVE] []))) = FAILED
   \<and> error_message (self_after (process_withdraw_eth (eth_env 50000 (Inl ''rejected''))
       (example_tx 3 ''ETH'' CREATED NATIVE)
       (example_db [example_tx 3 ''ETH'' CREATED NATIVE] []))) = ''rejected''
   \<and> txs (db_after (process_withdraw_eth (eth_env 50000 (Inl ''rejected''))
       (example_tx 3 ''ETH'' CREATED NATIVE)
       (example_db [example_tx 3 ''ETH'' CREATED NATIVE] []))) = [example_tx 3 ''ETH'' CREATED NATIVE]
   \<and> EthSend ''0xA1'' ''0xOperator'' 29000 1
       \<in> set (trace (process_withdraw_eth (eth_env 50000 (Inl ''rejected''))
            (example_tx 3 ''ETH'' CREATED NATIVE)
            (example_db [example_tx 3 ''ETH'' CREATED NATIVE] [])))
   \<and> EthSend ''0xA1'' ''0xOperator'' 29000 1
       \<in> set (trace (process_selector (eth_env 50000 (Inl ''rejected''))
            (example_tx 3 ''ETH'' CREATED NATIVE)
            (db_after (process_withdraw_eth (eth_env 50000 (Inl ''rejected''))
               (example_tx 3 ''ETH'' CREATED NATIVE)
               (example_db [example_tx 3 ''ETH'' CREATED NATIVE] [])))))"
  by (simp add: process_withdraw_eth_def process_selector_def example_tx_def example_db_def
      example_account_def eth_env_def base_env_def get_account_def returns_def Let_def
      all_erc20_withdrawals_def completed_erc20_txes_def)

section \<open>The gas refill\<close>

lemma erc20_withdrawals_map:
  assumes "\<And>r. r \<in> set (txs d) \<Longrightarrow>
             (withdraw_cycle (h r) = withdraw_cycle self \<and> account (h r) = account self
               \<and> tx_type (h r) = ERC20)
           = (withdraw_cycle r = withdraw_cycle self \<and> account r = account self
               \<and> tx_type r = ERC20)"
    and "txs d' = map h (txs d)"
  shows "erc20_withdrawals self d' = map h (erc20_withdrawals self d)"
proof -
  have "filter (\<lambda>r. withdraw_cycle (h r) = withdraw_cycle self \<and> account (h r) = account self
                    \<and> tx_type (h r) = ERC20) (txs d)
      = filter (\<lambda>r. withdraw_cycle r = withdraw_cycle self \<and> account r = account self
                    \<and> tx_type r = ERC20) (txs d)"
    by (rule filter_cong [OF refl]) (rule assms(1))
  then show ?thesis
    by (simp add: erc20_withdrawals_def assms(2) filter_map o_def)
qed

lemma too_low_run:
  assumes ty: "tx_type self = GAS_REFILL" and st: "status self = CREATED"
    and q: "refill_queue_manager_set self d \<noteq> []"
    and n: "gas_tx_count self = Some n"
    and acc: "get_account d (account self) = Inr acc"
    and gp: "gas_price e = (gp, fake_gp)"
    and low: "sum_list (map (\<lambda>w. token_value_in_eth e (currency w)
                                  (token_balance_of e (currency w) (eth_address acc)))
                           (erc20_withdrawals self d))
              \<le> gp * 21000 + gp * (200000 * n)"
  shows "process_gas_refill e self d =
           returns (self\<lparr>status := ERC20_BALANCE_TOO_LOW\<rparr>)
             (fold save_tx
                (map (\<lambda>w. w\<lparr>status := SKIPPED\<rparr>)
                   (map (\<lambda>w. w\<lparr>amount := Some (token_balance_of e (currency w) (eth_address acc)),
                               gas_price_erc20 := Some gp\<rparr>)
                        (erc20_withdrawals self d)))
                (save_tx (self\<lparr>status := ERC20_BALANCE_TOO_LOW\<rparr>)
                   (fold save_tx
                      (map (\<lambda>w. w\<lparr>amount := Some (token_balance_of e (currency w) (eth_address acc)),
                                  gas_price_erc20 := Some gp\<rparr>)
                           (erc20_withdrawals self d)) d)))
             [Log INFO ''Refill skipped: tokens value in ETH < tx fee'']"
proof -
  have guard: "\<not> (currency self \<noteq> ''ETH'' \<and> tx_type self \<noteq> GAS_REFILL)"
    and st': "\<not> status self \<noteq> CREATED"
    using ty st by simp_all
  show ?thesis
    unfolding process_gas_refill_def
    by (simp only: guard st' q n acc gp low if_False if_True Let_def option.case sum.case
        prod.case)
qed


text \<open>
  C6. For a refill in status \<open>CREATED\<close> that the gas-refill queue of its cycle points
  at: when the token balances of the account, converted to the native currency and summed,
  are at most the gas cost (the fee of the refill transfer, 21000 gas, plus the fee of a
  token transfer, 200000 gas, times the token count), the refill becomes
  \<open>ERC20_BALANCE_TOO_LOW\<close> and is saved, the token withdrawals of the account and cycle
  are the ones before, each now \<open>SKIPPED\<close> (with the balance and the gas price the
  first loop wrote), and nothing is broadcast. The row of the refill is in the database,
  whose primary keys are unique.
\<close>

theorem refill_token_balance_too_low:
  assumes ty: "tx_type self = GAS_REFILL" and st: "status self = CREATED"
    and q: "refill_queue_manager_set self d \<noteq> []"
    and n: "gas_tx_count self = Some n"
    and acc: "get_account d (account self) = Inr acc"
    and gp: "gas_price e = (gp, fake_gp)"
    and low: "sum_list (map (\<lambda>w. token_value_in_eth e (currency w)
                                  (token_balance_of e (currency w) (eth_address acc)))
                           (erc20_withdrawals self d))
              \<le> gp * 21000 + gp * (200000 * n)"
    and self: "self \<in> set (txs d)" and dist: "distinct (map tx_id (txs d))"
  shows "status (self_after (process_gas_refill e self d)) = ERC20_BALANCE_TOO_LOW
       \<and> self_after (process_gas_refill e self d)
            \<in> set (txs (db_after (process_gas_refill e self d)))
       \<and> erc20_withdrawals self (db_after (process_gas_refill e self d))
            = map (\<lambda>w. w\<lparr>amount := Some (token_balance_of e (currency w) (eth_address acc)),
                          gas_price_erc20 := Some gp, status := SKIPPED\<rparr>)
                  (erc20_withdrawals self d)
       \<and> (\<forall>w \<in> set (erc20_withdrawals self (db_after (process_gas_refill e self d))).
             status w = SKIPPED)
       \<and> filter is_broadcast (trace (process_gas_refill e self d)) = []
       \<and> raised (process_gas_refill e self d) = None"
proof -
  let ?f = "\<lambda>w. w\<lparr>amount := Some (token_balance_of e (currency w) (eth_address acc)),
                    gas_price_erc20 := Some gp\<rparr>"
  let ?g = "\<lambda>w::withdraw_tx. w\<lparr>status := SKIPPED\<rparr>"
  let ?self1 = "self\<lparr>status := ERC20_BALANCE_TOO_LOW\<rparr>"
  let ?W = "erc20_withdrawals self d"
  let ?d3 = "fold save_tx (map ?g (map ?f ?W)) (save_tx ?self1 (fold save_tx (map ?f ?W) d))"
  let ?h = "\<lambda>r. if r \<in> set ?W then ?g (?f r) else if r = self then ?self1 else r"
  let ?r = "process_gas_refill e self d"
  have run: "?r = returns ?self1 ?d3 [Log INFO ''Refill skipped: tokens value in ETH < tx fee'']"
    by (rule too_low_run [OF ty st q n acc gp low])
  have rows: "txs ?d3 = map ?h (txs d)"
    by (rule too_low_rows [OF dist self]) (simp_all add: ty)
  have selfW: "self \<notin> set ?W" using ty by (simp add: erc20_withdrawals_def)
  have "?self1 = ?h self" using selfW by simp
  then have "?self1 \<in> ?h ` set (txs d)" using self by (rule image_eqI)
  then have mem: "?self1 \<in> set (txs ?d3)" unfolding rows set_map .
  have W: "erc20_withdrawals self ?d3 = map ?h ?W"
    by (rule erc20_withdrawals_map [OF _ rows]) (auto simp add: ty erc20_withdrawals_def)
  have W': "map ?h ?W = map (\<lambda>w. ?g (?f w)) ?W"
    by (rule map_cong) simp_all
  have c1: "status (self_after ?r) = ERC20_BALANCE_TOO_LOW" by (simp add: run returns_simps)
  have c2: "self_after ?r \<in> set (txs (db_after ?r))"
    unfolding run returns_simps by (rule mem)
  have c3: "erc20_withdrawals self (db_after ?r) = map (\<lambda>w. ?g (?f w)) ?W"
    unfolding run returns_simps using W W' by (rule trans)
  have c4: "\<forall>w \<in> set (erc20_withdrawals self (db_after ?r)). status w = SKIPPED"
    unfolding c3 by simp
  have c5: "filter is_broadcast (trace ?r) = []" by (simp add: run returns_simps)
  have c6: "raised ?r = None" by (simp add: run returns_simps)
  from c1 c2 c3 c4 c5 c6 show ?thesis by simp
qed

theorem refill_token_balance_too_low_witness:
  "sum_list (map (\<lambda>w. token_value_in_eth too_low_env (currency w)
                        (token_balance_of too_low_env (currency w) ''0xA1''))
                 (erc20_withdrawals ((example_tx 1 ''ETH'' CREATED GAS_REFILL)\<lparr>gas_tx_count := Some 1\<rparr>)
                    too_low_db)) = 90
   \<and> status (self_after (process_gas_refill too_low_env
        ((example_tx 1 ''ETH'' CREATED GAS_REFILL)\<lparr>gas_tx_count := Some 1\<rparr>) too_low_db))
      = ERC20_BALANCE_TOO_LOW
   \<and> erc20_withdrawals ((example_tx 1 ''ETH'' CREATED GAS_REFILL)\<lparr>gas_tx_count := Some 1\<rparr>)
        (db_after (process_gas_refill too_low_env
           ((example_tx 1 ''ETH'' CREATED GAS_REFILL)\<lparr>gas_tx_count := Some 1\<rparr>) too_low_db))
      = [(example_tx 2 ''USDT'' SKIPPED ERC20)\<lparr>amount := Some 90, gas_price_erc20 := Some 1\<rparr>]"
  using refill_token_balance_too_low [of "(example_tx 1 ''ETH'' CREATED GAS_REFILL)\<lparr>gas_tx_count := Some 1\<rparr>"
      too_low_db 1 example_account too_low_env 1 1]
  by (simp add: too_low_env_def too_low_db_def example_tx_def example_db_def example_account_def
      base_env_def get_account_def refill_queue_manager_set_def erc20_withdrawals_def)

section \<open>Idempotence of confirmation, queue advance and completion\<close>

lemma map_upd_idem:
  "map (\<lambda>r. if key r = k then s else r) (map (\<lambda>r. if key r = k then s else r) xs)
     = map (\<lambda>r. if key r = k then s else r) xs" if "key s = k"
  using that by (induction xs) simp_all

lemma save_tx_idem: "save_tx s (save_tx s d) = save_tx s d"
proof (cases "\<exists>r \<in> set (txs d). tx_id r = tx_id s")
  case True
  then have 1: "txs (save_tx s d) = map (\<lambda>r. if tx_id r = tx_id s then s else r) (txs d)"
    by (simp add: save_tx_def)
  have 2: "\<exists>r \<in> set (txs (save_tx s d)). tx_id r = tx_id s"
    using save_tx_mem [of s d] by blast
  have "txs (save_tx s (save_tx s d)) = txs (save_tx s d)"
    using 2 by (simp add: save_tx_def [of s "save_tx s d"] 1 map_upd_idem del: map_map)
  then show ?thesis by (simp add: save_tx_def [of s "save_tx s d"])
next
  case False
  then have 1: "txs (save_tx s d) = txs d @ [s]"
    by (simp add: save_tx_def)
  have "map (\<lambda>r. if tx_id r = tx_id s then s else r) (txs d) = txs d"
    using False by (simp add: map_idI)
  then have "txs (save_tx s (save_tx s d)) = txs (save_tx s d)"
    by (simp add: save_tx_def [of s "save_tx s d"] 1)
  then show ?thesis by (simp add: save_tx_def [of s "save_tx s d"])
qed


lemma save_manager_mem: "s \<in> set (managers (save_manager s d))"
  by (auto simp add: save_manager_def)

lemma save_manager_idem: "save_manager s (save_manager s d) = save_manager s d"
proof (cases "\<exists>r \<in> set (managers d). tm_id r = tm_id s")
  case True
  then have 1: "managers (save_manager s d) = map (\<lambda>r. if tm_id r = tm_id s then s else r) (managers d)"
    by (simp add: save_manager_def)
  have 2: "\<exists>r \<in> set (managers (save_manager s d)). tm_id r = tm_id s"
    using save_manager_mem [of s d] by blast
  have "managers (save_manager s (save_manager s d)) = managers (save_manager s d)"
    using 2 by (simp add: save_manager_def [of s "save_manager s d"] 1 map_upd_idem del: map_map)
  then show ?thesis by (simp add: save_manager_def [of s "save_manager s d"])
next
  case False
  then have 1: "managers (save_manager s d) = managers d @ [s]"
    by (simp add: save_manager_def)
  have "map (\<lambda>r. if tm_id r = tm_id s then s else r) (managers d) = managers d"
    using False by (simp add: map_idI)
  then have "managers (save_manager s (save_manager s d)) = managers (save_manager s d)"
    by (simp add: save_manager_def [of s "save_manager s d"] 1)
  then show ?thesis by (simp add: save_manager_def [of s "save_manager s d"])
qed


lemma save_cycle_mem: "s \<in> set (cycles (save_cycle s d))"
  by (auto simp add: save_cycle_def)

lemma save_cycle_idem: "save_cycle s (save_cycle s d) = save_cycle s d"
proof (cases "\<exists>r \<in> set (cycles d). cycle_id r = cycle_id s")
  case True
  then have 1: "cycles (save_cycle s d) = map (\<lambda>r. if cycle_id r = cycle_id s then s else r) (cycles d)"
    by (simp add: save_cycle_def)
  have 2: "\<exists>r \<in> set (cycles (save_cycle s d)). cycle_id r = cycle_id s"
    using save_cycle_mem [of s d] by blast
  have "cycles (save_cycle s (save_cycle s d)) = cycles (save_cycle s d)"
    using 2 by (simp add: save_cycle_def [of s "save_cycle s d"] 1 map_upd_idem del: map_map)
  then show ?thesis by (simp add: save_cycle_def [of s "save_cycle s d"])
next
  case False
  then have 1: "cycles (save_cycle s d) = cycles d @ [s]"
    by (simp add: save_cycle_def)
  have "map (\<lambda>r. if cycle_id r = cycle_id s then s else r) (cycles d) = cycles d"
    using False by (simp add: map_idI)
  then have "cycles (save_cycle s (save_cycle s d)) = cycles (save_cycle s d)"
    by (simp add: save_cycle_def [of s "save_cycle s d"] 1)
  then show ?thesis by (simp add: save_cycle_def [of s "save_cycle s d"])
qed


lemma save_manager_fields [simp]:
  "txs (save_manager s d) = txs d"
  "cycles (save_manager s d) = cycles d"
  "purchases (save_manager s d) = purchases d"
  "next_tx_id (save_manager s d) = next_tx_id d"
  "next_manager_id (save_manager s d) = next_manager_id d"
  "next_cycle_id (save_manager s d) = next_cycle_id d"
  by (simp_all add: save_manager_def)

lemma save_cycle_fields [simp]:
  "txs (save_cycle s d) = txs d"
  "managers (save_cycle s d) = managers d"
  "purchases (save_cycle s d) = purchases d"
  "next_tx_id (save_cycle s d) = next_tx_id d"
  "next_manager_id (save_cycle s d) = next_manager_id d"
  "next_cycle_id (save_cycle s d) = next_cycle_id d"
  by (simp_all add: save_cycle_def)

lemma raises_simps:
  "self_after (raises err s d tr) = s"
  "db_after (raises err s d tr) = d"
  "trace (raises err s d tr) = tr"
  "raised (raises err s d tr) = Some err"
  by (simp_all add: raises_def)

lemma check_confirmation_time_twice:
  "self_after (check_confirmation_time e h (self_after (check_confirmation_time e h self d))
                 (db_after (check_confirmation_time e h self d)))
     = self_after (check_confirmation_time e h self d)
   \<and> db_after (check_confirmation_time e h (self_after (check_confirmation_time e h self d))
                 (db_after (check_confirmation_time e h self d)))
     = db_after (check_confirmation_time e h self d)"
  by (simp add: check_confirmation_time_def returns_simps raises_simps save_tx_idem Let_def
      split: option.splits)

lemma check_confirmation_time_status:
  "status (self_after (check_confirmation_time e h self d)) \<in> {status self, SENT_TX_NOT_FOUND}"
  "tx_hash (self_after (check_confirmation_time e h self d)) = tx_hash self"
  by (simp_all add: check_confirmation_time_def returns_simps raises_simps Let_def
      split: option.splits)

lemma tx_confirm_eth_erc20_twice:
  "self_after (tx_confirm_eth_erc20 e (self_after (tx_confirm_eth_erc20 e self d))
                 (db_after (tx_confirm_eth_erc20 e self d)))
     = self_after (tx_confirm_eth_erc20 e self d)
   \<and> db_after (tx_confirm_eth_erc20 e (self_after (tx_confirm_eth_erc20 e self d))
                 (db_after (tx_confirm_eth_erc20 e self d)))
     = db_after (tx_confirm_eth_erc20 e self d)"
proof (cases "status self = COMPLETED")
  case True
  then show ?thesis by (simp add: tx_confirm_eth_erc20_def returns_simps)
next
  case False
  show ?thesis
  proof (cases "get_transaction_receipt e (tx_hash self)")
    case None
    have r: "tx_confirm_eth_erc20 e self d = check_confirmation_time e 2 self d"
      using False None by (simp add: tx_confirm_eth_erc20_def)
    have st: "status (self_after (check_confirmation_time e 2 self d)) \<noteq> COMPLETED"
      using check_confirmation_time_status(1) [of e 2 self d] False by auto
    have "tx_confirm_eth_erc20 e (self_after (check_confirmation_time e 2 self d))
             (db_after (check_confirmation_time e 2 self d))
          = check_confirmation_time e 2 (self_after (check_confirmation_time e 2 self d))
             (db_after (check_confirmation_time e 2 self d))"
      using st None by (simp add: tx_confirm_eth_erc20_def check_confirmation_time_status(2))
    then show ?thesis unfolding r using check_confirmation_time_twice [of e 2 self d] by simp
  next
    case (Some a)
    then show ?thesis using False
      by (simp add: tx_confirm_eth_erc20_def returns_simps save_tx_idem Let_def)
  qed
qed

lemma tx_confirm_btc_twice:
  "self_after (tx_confirm_btc e (self_after (tx_confirm_btc e self d))
                 (db_after (tx_confirm_btc e self d)))
     = self_after (tx_confirm_btc e self d)
   \<and> db_after (tx_confirm_btc e (self_after (tx_confirm_btc e self d))
                 (db_after (tx_confirm_btc e self d)))
     = db_after (tx_confirm_btc e self d)"
proof (cases "status self = COMPLETED")
  case True
  then show ?thesis by (simp add: tx_confirm_btc_def returns_simps)
next
  case False
  show ?thesis
  proof (cases "get_tx_confirmations e (tx_hash self)")
    case (Inl err)
    let ?c = "check_confirmation_time e 3 self d"
    have r: "self_after (tx_confirm_btc e self d) = self_after ?c"
            "db_after (tx_confirm_btc e self d) = db_after ?c"
      using False Inl by (simp_all add: tx_confirm_btc_def Let_def)
    have st: "status (self_after ?c) \<noteq> COMPLETED"
      using check_confirmation_time_status(1) [of e 3 self d] False by auto
    have "self_after (tx_confirm_btc e (self_after ?c) (db_after ?c))
            = self_after (check_confirmation_time e 3 (self_after ?c) (db_after ?c))
        \<and> db_after (tx_confirm_btc e (self_after ?c) (db_after ?c))
            = db_after (check_confirmation_time e 3 (self_after ?c) (db_after ?c))"
      using st Inl by (simp add: tx_confirm_btc_def check_confirmation_time_status(2) Let_def)
    then show ?thesis unfolding r using check_confirmation_time_twice [of e 3 self d] by simp
  next
    case (Inr n)
    then show ?thesis using False
      by (simp add: tx_confirm_btc_def returns_simps save_tx_idem Let_def)
  qed
qed

lemma confirm_fields:
  "currency (self_after (check_confirmation_time e h self d)) = currency self"
  "tx_type (self_after (check_confirmation_time e h self d)) = tx_type self"
  "currency (self_after (tx_confirm_eth_erc20 e self d)) = currency self"
  "tx_type (self_after (tx_confirm_eth_erc20 e self d)) = tx_type self"
  "currency (self_after (tx_confirm_btc e self d)) = currency self"
  "tx_type (self_after (tx_confirm_btc e self d)) = tx_type self"
  by (simp_all add: check_confirmation_time_def tx_confirm_eth_erc20_def tx_confirm_btc_def
      returns_simps raises_simps Let_def split: option.splits sum.splits)

lemma confirm_selector_twice:
  "self_after (confirm_selector e (self_after (confirm_selector e self d))
                 (db_after (confirm_selector e self d)))
     = self_after (confirm_selector e self d)
   \<and> db_after (confirm_selector e (self_after (confirm_selector e self d))
                 (db_after (confirm_selector e self d)))
     = db_after (confirm_selector e self d)"
proof (cases "currency self = ''ETH'' \<or> tx_type self = ERC20")
  case True
  then have r: "confirm_selector e self d = tx_confirm_eth_erc20 e self d"
    by (simp add: confirm_selector_def)
  have "confirm_selector e (self_after (tx_confirm_eth_erc20 e self d))
          (db_after (tx_confirm_eth_erc20 e self d))
        = tx_confirm_eth_erc20 e (self_after (tx_confirm_eth_erc20 e self d))
          (db_after (tx_confirm_eth_erc20 e self d))"
    using True by (simp add: confirm_selector_def confirm_fields)
  then show ?thesis unfolding r using tx_confirm_eth_erc20_twice [of e self d] by simp
next
  case False
  show ?thesis
  proof (cases "currency self = ''BTC''")
    case True
    then have r: "confirm_selector e self d = tx_confirm_btc e self d"
      using False by (simp add: confirm_selector_def)
    have "confirm_selector e (self_after (tx_confirm_btc e self d))
            (db_after (tx_confirm_btc e self d))
          = tx_confirm_btc e (self_after (tx_confirm_btc e self d))
            (db_after (tx_confirm_btc e self d))"
      using True False by (simp add: confirm_selector_def confirm_fields)
    then show ?thesis unfolding r using tx_confirm_btc_twice [of e self d] by simp
  next
    case no: False
    then show ?thesis using False by (simp add: confirm_selector_def returns_simps)
  qed
qed

lemma check_for_completion_twice:
  "self_after (check_for_completion (self_after (check_for_completion self d))
                 (db_after (check_for_completion self d)))
     = self_after (check_for_completion self d)
   \<and> db_after (check_for_completion (self_after (check_for_completion self d))
                 (db_after (check_for_completion self d)))
     = db_after (check_for_completion self d)"
  by (simp add: check_for_completion_def returns_simps save_cycle_idem Let_def)


lemma get_remaining_txes_mem: "t \<in> set (get_remaining_txes self d) \<Longrightarrow> t \<in> set (txs d)"
  by (auto simp add: get_remaining_txes_def Let_def split: if_splits)

lemma get_remaining_txes_cong:
  "tm_withdraw_cycle m' = tm_withdraw_cycle m \<Longrightarrow> queue_type m' = queue_type m \<Longrightarrow>
   tm_account m' = tm_account m \<Longrightarrow> txs d' = txs d \<Longrightarrow>
   get_remaining_txes m' d' = get_remaining_txes m d"
  by (simp add: get_remaining_txes_def Let_def)

lemma get_remaining_txes_not_pending:
  "t \<in> set (get_remaining_txes self d) \<Longrightarrow> status t \<noteq> PENDING"
  by (auto simp add: get_remaining_txes_def Let_def split: if_splits)

lemma is_current_tx_finished_cases:
  "is_current_tx_finished self d = Inl DoesNotExist
   \<or> (\<exists>b s1. is_current_tx_finished self d = Inr (b, s1)
          \<and> manager_row s1 = manager_row self
          \<and> is_current_tx_finished s1 d = Inr (b, s1))"
proof (cases "cached_tx self")
  case (Some c)
  then show ?thesis by (simp add: is_current_tx_finished_def get_tx_to_process_def)
next
  case None
  show ?thesis
  proof (cases "tx_to_process (manager_row self)")
    case None
    then show ?thesis
      using \<open>cached_tx self = None\<close>
      by (auto simp add: is_current_tx_finished_def get_tx_to_process_def)
  next
    case (Some i)
    then show ?thesis
      using \<open>cached_tx self = None\<close>
      by (cases "filter (\<lambda>t. tx_id t = i) (txs d)")
         (simp_all add: is_current_tx_finished_def get_tx_to_process_def)
  qed
qed

lemma set_next_tx_twice:
  "self_after (set_next_tx (self_after (set_next_tx self d)) (db_after (set_next_tx self d)))
     = self_after (set_next_tx self d)
   \<and> db_after (set_next_tx (self_after (set_next_tx self d)) (db_after (set_next_tx self d)))
     = db_after (set_next_tx self d)"
proof (cases "completed (manager_row self)")
  case True
  then show ?thesis by (simp add: set_next_tx_def returns_simps)
next
  case nc: False
  from is_current_tx_finished_cases [of self d] show ?thesis
  proof
    assume "is_current_tx_finished self d = Inl DoesNotExist"
    then show ?thesis using nc by (simp add: set_next_tx_def raises_simps)
  next
    assume "\<exists>b s1. is_current_tx_finished self d = Inr (b, s1)
          \<and> manager_row s1 = manager_row self
          \<and> is_current_tx_finished s1 d = Inr (b, s1)"
    then obtain finished s1 where fin: "is_current_tx_finished self d = Inr (finished, s1)"
      and row: "manager_row s1 = manager_row self"
      and again: "is_current_tx_finished s1 d = Inr (finished, s1)"
      by blast
    have nc1: "\<not> completed (manager_row s1)" using nc row by simp
    show ?thesis
    proof (cases finished)
      case False
      have r: "set_next_tx self d = returns s1 d []"
        using nc fin False by (simp add: set_next_tx_def)
      have "set_next_tx s1 d = returns s1 d []"
        using nc1 again False by (simp add: set_next_tx_def)
      then show ?thesis unfolding r returns_simps by (simp add: returns_simps)
    next
      case True
      show ?thesis
      proof (cases "get_remaining_txes (manager_row s1) d")
        case Nil
        let ?s2 = "s1\<lparr>manager_row := (manager_row s1)\<lparr>tx_to_process := None, completed := True\<rparr>,
                      cached_tx := None\<rparr>"
        have r: "set_next_tx self d = returns ?s2 (save_manager (manager_row ?s2) d) []"
          using nc fin True Nil by (simp add: set_next_tx_def Let_def)
        have "set_next_tx ?s2 (save_manager (manager_row ?s2) d)
                = returns ?s2 (save_manager (manager_row ?s2) d)
                    [Log INFO ''WITHDRAW QUEUE: Method to set next tx is called, ignoring'']"
          by (simp add: set_next_tx_def)
        then show ?thesis unfolding r returns_simps by (simp add: returns_simps)
      next
        case (Cons t ts)
        let ?s2 = "s1\<lparr>manager_row := (manager_row s1)\<lparr>tx_to_process := Some (tx_id t)\<rparr>,
                      cached_tx := Some t\<rparr>"
        let ?d1 = "save_manager (manager_row ?s2) d"
        have r: "set_next_tx self d = returns ?s2 ?d1 []"
          using nc fin True Cons by (simp add: set_next_tx_def Let_def)
        have "t \<in> set (get_remaining_txes (manager_row s1) d)" using Cons by simp
        then have st: "status t \<noteq> PENDING" by (rule get_remaining_txes_not_pending)
        have b: "is_current_tx_finished ?s2 ?d1 = Inr (True, ?s2)"
          using st by (simp add: is_current_tx_finished_def get_tx_to_process_def)
        have rem: "get_remaining_txes (manager_row ?s2) ?d1 = t # ts"
          using get_remaining_txes_cong [of "manager_row ?s2" "manager_row s1" ?d1 d] Cons
          by simp
        have "set_next_tx ?s2 ?d1 = returns ?s2 ?d1 []"
          using nc1 b rem by (simp add: set_next_tx_def save_manager_idem Let_def)
        then show ?thesis unfolding r returns_simps by (simp add: returns_simps)
      qed
    qed
  qed
qed

text \<open>
  The first confirmation of a transaction that is terminal but not \<open>COMPLETED\<close> can
  still write: a \<open>FAILED\<close> transaction whose receipt is found with status 1 becomes
  \<open>COMPLETED\<close>. Only the second call is bound to change nothing.
\<close>

lemma first_confirmation_can_write:
  "status (self_after (confirm_selector (confirm_env (Some 1))
       (sent_tx 3 ''ETH'' FAILED NATIVE) (example_db [sent_tx 3 ''ETH'' FAILED NATIVE] [])))
     = COMPLETED"
  by (simp add: confirm_selector_def tx_confirm_eth_erc20_def sent_tx_def example_tx_def
      confirm_env_def base_env_def returns_def Let_def)

text \<open>
  C9. A second invocation with the same answers of the collaborators changes nothing
  more: for each confirmation method, for \<open>set_next_tx\<close> and for the completion
  check, the object and the database after two calls are the object and the database
  after one. This holds from every state, so in particular when the entity is terminal
  before the first call or after it (a transaction \<open>COMPLETED\<close>, \<open>SKIPPED\<close>,
  \<open>FAILED\<close> or \<open>SENT_TX_NOT_FOUND\<close>, a queue entry \<open>completed\<close>, a cycle
  \<open>COMPLETED\<close>).
\<close>

theorem second_invocation_changes_nothing:
  "(tx_terminal (status self) \<or> tx_terminal (status (self_after (confirm_selector e self d)))
      \<longrightarrow> self_after (confirm_selector e (self_after (confirm_selector e self d))
                         (db_after (confirm_selector e self d)))
            = self_after (confirm_selector e self d)
        \<and> db_after (confirm_selector e (self_after (confirm_selector e self d))
                         (db_after (confirm_selector e self d)))
            = db_after (confirm_selector e self d))
   \<and> (tx_terminal (status self) \<or> tx_terminal (status (self_after (tx_confirm_eth_erc20 e self d)))
      \<longrightarrow> self_after (tx_confirm_eth_erc20 e (self_after (tx_confirm_eth_erc20 e self d))
                         (db_after (tx_confirm_eth_erc20 e self d)))
            = self_after (tx_confirm_eth_erc20 e self d)
        \<and> db_after (tx_confirm_eth_erc20 e (self_after (tx_confirm_eth_erc20 e self d))
                         (db_after (tx_confirm_eth_erc20 e self d)))
            = db_after (tx_confirm_eth_erc20 e self d))
   \<and> (tx_terminal (status self) \<or> tx_terminal (status (self_after (tx_confirm_btc e self d)))
      \<longrightarrow> self_after (tx_confirm_btc e (self_after (tx_confirm_btc e self d))
                         (db_after (tx_confirm_btc e self d)))
            = self_after (tx_confirm_btc e self d)
        \<and> db_after (tx_confirm_btc e (self_after (tx_confirm_btc e self d))
                         (db_after (tx_confirm_btc e self d)))
            = db_after (tx_confirm_btc e self d))
   \<and> (completed (manager_row m) \<or> completed (manager_row (self_after (set_next_tx m d)))
      \<longrightarrow> self_after (set_next_tx (self_after (set_next_tx m d)) (db_after (set_next_tx m d)))
            = self_after (set_next_tx m d)
        \<and> db_after (set_next_tx (self_after (set_next_tx m d)) (db_after (set_next_tx m d)))
            = db_after (set_next_tx m d))
   \<and> (cycle_status c = CYCLE_COMPLETED
         \<or> cycle_status (self_after (check_for_completion c d)) = CYCLE_COMPLETED
      \<longrightarrow> self_after (check_for_completion (self_after (check_for_completion c d))
                         (db_after (check_for_completion c d)))
            = self_after (check_for_completion c d)
        \<and> db_after (check_for_completion (self_after (check_for_completion c d))
                         (db_after (check_for_completion c d)))
            = db_after (check_for_completion c d))"
  using confirm_selector_twice [of e self d] tx_confirm_eth_erc20_twice [of e self d]
    tx_confirm_btc_twice [of e self d] set_next_tx_twice [of m d]
    check_for_completion_twice [of c d]
  by blast

theorem second_invocation_changes_nothing_witness:
  "tx_terminal (status (self_after (confirm_selector (confirm_env (Some 0))
       (sent_tx 3 ''ETH'' PENDING NATIVE) (example_db [sent_tx 3 ''ETH'' PENDING NATIVE] []))))
   \<and> status (self_after (confirm_selector (confirm_env (Some 0))
       (self_after (confirm_selector (confirm_env (Some 0))
          (sent_tx 3 ''ETH'' PENDING NATIVE) (example_db [sent_tx 3 ''ETH'' PENDING NATIVE] [])))
       (db_after (confirm_selector (confirm_env (Some 0))
          (sent_tx 3 ''ETH'' PENDING NATIVE) (example_db [sent_tx 3 ''ETH'' PENDING NATIVE] [])))))
     = FAILED
   \<and> db_after (confirm_selector (confirm_env (Some 0))
       (self_after (confirm_selector (confirm_env (Some 0))
          (sent_tx 3 ''ETH'' PENDING NATIVE) (example_db [sent_tx 3 ''ETH'' PENDING NATIVE] [])))
       (db_after (confirm_selector (confirm_env (Some 0))
          (sent_tx 3 ''ETH'' PENDING NATIVE) (example_db [sent_tx 3 ''ETH'' PENDING NATIVE] []))))
     = example_db [(sent_tx 3 ''ETH'' FAILED NATIVE)\<lparr>error_message := ''reverted''\<rparr>] []
   \<and> tx_terminal (status (sent_tx 4 ''BTC'' SENT_TX_NOT_FOUND NATIVE))
   \<and> completed (manager_row (load_manager done_manager))
   \<and> db_after (set_next_tx
        (self_after (set_next_tx (load_manager done_manager) (example_db [] [done_manager])))
        (db_after (set_next_tx (load_manager done_manager) (example_db [] [done_manager]))))
     = example_db [] [done_manager]
   \<and> cycle_status (self_after (check_for_completion
        \<lparr>cycle_id = 1, currencies = [''BTC'', ''ETH'', ''USDC'', ''USDT''],
          cycle_status = CYCLE_PENDING\<rparr> (example_db [] []))) = CYCLE_COMPLETED
   \<and> cycle_status (self_after (check_for_completion
        (self_after (check_for_completion
           \<lparr>cycle_id = 1, currencies = [''BTC'', ''ETH'', ''USDC'', ''USDT''],
             cycle_status = CYCLE_PENDING\<rparr> (example_db [] [])))
        (db_after (check_for_completion
           \<lparr>cycle_id = 1, currencies = [''BTC'', ''ETH'', ''USDC'', ''USDT''],
             cycle_status = CYCLE_PENDING\<rparr> (example_db [] []))))) = CYCLE_COMPLETED"
  using second_invocation_changes_nothing [of "sent_tx 3 ''ETH'' PENDING NATIVE" "confirm_env (Some 0)"
      "example_db [sent_tx 3 ''ETH'' PENDING NATIVE] []" "load_manager done_manager"
      "\<lparr>cycle_id = 1, currencies = [''BTC'', ''ETH'', ''USDC'', ''USDT''],
        cycle_status = CYCLE_PENDING\<rparr>"]
  by (simp add: tx_terminal_def confirm_selector_def tx_confirm_eth_erc20_def sent_tx_def
      example_tx_def example_db_def confirm_env_def base_env_def returns_def save_tx_def
      Let_def done_manager_def load_manager_def set_next_tx_def check_for_completion_def
      save_cycle_def)

section \<open>The cycle builder keeps the database well-formed\<close>

lemma same_frame_refl [simp]: "same_frame d d"
  by (simp add: same_frame_def)

lemma same_frame_trans: "same_frame d d1 \<Longrightarrow> same_frame d1 d2 \<Longrightarrow> same_frame d d2"
  by (simp add: same_frame_def)

lemma same_frame_save_tx [simp]: "same_frame d (save_tx s d)"
  by (simp add: same_frame_def)

lemma create_tx_fields [simp]:
  "managers (create_tx cyc a c st ty cnt d) = managers d"
  "cycles (create_tx cyc a c st ty cnt d) = cycles d"
  "purchases (create_tx cyc a c st ty cnt d) = purchases d"
  "next_tx_id (create_tx cyc a c st ty cnt d) = Suc (next_tx_id d)"
  "next_manager_id (create_tx cyc a c st ty cnt d) = next_manager_id d"
  "next_cycle_id (create_tx cyc a c st ty cnt d) = next_cycle_id d"
  by (simp_all add: create_tx_def)

lemma same_frame_create_tx [simp]: "same_frame d (create_tx cyc a c st ty cnt d)"
  by (simp add: same_frame_def)

lemma row_ok_mono: "row_ok ms t \<Longrightarrow> set ms \<subseteq> set ms' \<Longrightarrow> row_ok ms' t"
  by (auto simp add: row_ok_def)

lemma db_inv_create_tx:
  assumes "db_inv d" and "cyc < next_cycle_id d" and "st \<noteq> PENDING"
    and "ty = ERC20 \<longrightarrow> st \<noteq> CREATED"
  shows "db_inv (create_tx cyc a c st ty cnt d)"
proof -
  have k: "keys_ok (create_tx cyc a c st ty cnt d)"
    using assms(1,2) by (fastforce simp add: db_inv_def keys_ok_def create_tx_def)
  have q: "queues_ok (create_tx cyc a c st ty cnt d)"
    using assms(1) by (simp add: db_inv_def queues_ok_def)
  have r: "\<forall>t \<in> set (txs (create_tx cyc a c st ty cnt d)). row_ok (managers d) t"
    using assms(1,3,4) by (auto simp add: db_inv_def create_tx_def row_ok_def)
  show ?thesis using k q r by (simp add: db_inv_def)
qed

lemma gas_refills_create_tx:
  "gas_refills cyc b (create_tx cyc a c st ty cnt d) =
     gas_refills cyc b d @
       (if a = b \<and> ty = GAS_REFILL
        then [\<lparr>tx_id = next_tx_id d, withdraw_cycle = Some cyc, account = Some a,
               amount = None, currency = c, status = st, tx_type = ty, tx_hash = None,
               gas_tx_count = cnt, gas_price_erc20 = None, error_message = [],
               relayed_at = None\<rparr>]
        else [])"
  by (auto simp add: gas_refills_def create_tx_def)

lemma db_inv_save_tx:
  assumes inv: "db_inv d" and r: "r \<in> set (txs d)" and id: "tx_id s = tx_id r"
    and cyc: "withdraw_cycle s = withdraw_cycle r" and ok: "row_ok (managers d) s"
  shows "db_inv (save_tx s d)"
proof -
  have ex: "tx_id s \<in> tx_id ` set (txs d)" using r id by force
  have ids: "map tx_id (txs (save_tx s d)) = map tx_id (txs d)" by (rule save_tx_ids [OF ex])
  have mem: "\<And>t. t \<in> set (txs (save_tx s d)) \<Longrightarrow> t = s \<or> t \<in> set (txs d)"
    by (auto simp add: save_tx_set)
  have k: "keys_ok (save_tx s d)"
    unfolding keys_ok_def ids using inv r id cyc
    by (auto simp add: db_inv_def keys_ok_def dest!: mem)
  have q: "queues_ok (save_tx s d)" using inv by (simp add: db_inv_def queues_ok_def)
  have rows: "\<forall>t \<in> set (txs (save_tx s d)). row_ok (managers d) t"
    using inv ok by (auto simp add: db_inv_def dest!: mem)
  show ?thesis using k q rows by (simp add: db_inv_def)
qed

lemma filter_key_cases:
  assumes "distinct (map f xs)"
  shows "filter (\<lambda>x. f x = k) xs = [] \<or> (\<exists>x. filter (\<lambda>x. f x = k) xs = [x])"
  using assms
proof (induction xs)
  case Nil
  then show ?case by simp
next
  case (Cons a xs)
  show ?case
  proof (cases "f a = k")
    case True
    have "f a \<notin> f ` set xs" using Cons.prems by simp
    then have "\<forall>x \<in> set xs. f x \<noteq> k" using True by blast
    then have "filter (\<lambda>x. f x = k) xs = []"
      by (simp add: filter_empty_conv)
    then show ?thesis using True by simp
  next
    case False
    then show ?thesis using Cons by simp
  qed
qed

lemma manager_get_or_create_effect:
  assumes inv: "db_inv d"
    and look: "\<And>m. lookup m = (queue_key m = K)"
    and key: "K = (Some cyc, qt, if qt = QUEUE_ERC20 then acct else None)"
  shows "\<exists>d'. manager_get_or_create lookup cyc acct qt d = (None, d') \<and> db_inv d'
           \<and> txs d' = txs d \<and> same_frame d d' \<and> next_tx_id d' = next_tx_id d"
proof -
  have dist: "distinct (map queue_key (managers d))"
    using inv by (simp add: db_inv_def queues_ok_def)
  have "lookup = (\<lambda>m. queue_key m = K)" using look by blast
  then have eq: "filter lookup (managers d) = filter (\<lambda>m. queue_key m = K) (managers d)"
    by simp
  consider (none) "filter lookup (managers d) = []"
    | (one) x where "filter lookup (managers d) = [x]"
    using filter_key_cases [OF dist, of K] eq by auto
  then show ?thesis
  proof cases
    case none
    let ?new = "\<lparr>tm_id = next_manager_id d, tm_withdraw_cycle = Some cyc, tm_account = acct,
                  tx_to_process = None, queue_type = qt, completed = False\<rparr>"
    let ?d' = "d\<lparr>managers := managers d @ [?new], next_manager_id := Suc (next_manager_id d)\<rparr>"
    have r: "manager_get_or_create lookup cyc acct qt d = (None, ?d')"
      using none by (simp add: manager_get_or_create_def)
    have knew: "queue_key ?new = K" by (simp add: queue_key_def key)
    have "K \<notin> queue_key ` set (managers d)"
      using none eq by (auto simp add: filter_empty_conv)
    then have q: "queues_ok ?d'"
      using inv knew by (fastforce simp add: db_inv_def queues_ok_def)
    have k: "keys_ok ?d'" using inv by (simp add: db_inv_def keys_ok_def)
    have rows: "\<forall>t \<in> set (txs ?d'). row_ok (managers ?d') t"
      using inv by (auto simp add: db_inv_def intro: row_ok_mono)
    show ?thesis using r k q rows by (simp add: db_inv_def same_frame_def)
  next
    case one
    then show ?thesis using inv by (simp add: manager_get_or_create_def)
  qed
qed


lemma gas_refills_map:
  assumes "\<And>r. r \<in> set (txs d) \<Longrightarrow>
             (withdraw_cycle (h r) = Some cyc \<and> account (h r) = Some b \<and> tx_type (h r) = GAS_REFILL)
           = (withdraw_cycle r = Some cyc \<and> account r = Some b \<and> tx_type r = GAS_REFILL)"
    and "txs d' = map h (txs d)"
  shows "gas_refills cyc b d' = map h (gas_refills cyc b d)"
proof -
  have "filter (\<lambda>r. withdraw_cycle (h r) = Some cyc \<and> account (h r) = Some b
                    \<and> tx_type (h r) = GAS_REFILL) (txs d)
      = filter (\<lambda>r. withdraw_cycle r = Some cyc \<and> account r = Some b
                    \<and> tx_type r = GAS_REFILL) (txs d)"
    by (rule filter_cong [OF refl]) (rule assms(1))
  then show ?thesis
    by (simp add: gas_refills_def assms(2) filter_map o_def)
qed

lemma gas_refills_txs: "txs d' = txs d \<Longrightarrow> gas_refills cyc b d' = gas_refills cyc b d"
  by (simp add: gas_refills_def)

lemma gas_state_txs: "txs d' = txs d \<Longrightarrow> gas_state cyc b k d' = gas_state cyc b k d"
  by (simp add: gas_state_def gas_refills_def)

lemma gas_tx_get_or_create_effect:
  assumes inv: "db_inv d" and cyc: "cyc < next_cycle_id d"
    and gs: "gas_state cyc a k d" and k: "k \<le> 1"
  shows "\<exists>d'. gas_tx_get_or_create cyc a d = (None, d') \<and> db_inv d'
           \<and> gas_state cyc a (Suc k) d'
           \<and> (\<forall>b. b \<noteq> a \<longrightarrow> gas_refills cyc b d' = gas_refills cyc b d)
           \<and> managers d' = managers d \<and> same_frame d d'"
proof -
  let ?L = "filter (\<lambda>t. withdraw_cycle t = Some cyc \<and> account t = Some a
                       \<and> currency t = ''ETH'' \<and> gas_tx_count t = Some 1
                       \<and> tx_type t = GAS_REFILL) (txs d)"
  have L: "?L = filter (\<lambda>t. currency t = ''ETH'' \<and> gas_tx_count t = Some 1) (gas_refills cyc a d)"
    unfolding gas_refills_def filter_filter by (rule filter_cong [OF refl]) auto
  show ?thesis
  proof (cases "k = 0")
    case True
    then have "gas_refills cyc a d = []" using gs by (simp add: gas_state_def)
    then have "?L = []" unfolding L by simp
    then have r: "gas_tx_get_or_create cyc a d
                    = (None, create_tx cyc a ''ETH'' CREATED GAS_REFILL (Some 1) d)"
      by (simp add: gas_tx_get_or_create_def)
    have i: "db_inv (create_tx cyc a ''ETH'' CREATED GAS_REFILL (Some 1) d)"
      by (rule db_inv_create_tx [OF inv cyc]) simp_all
    have g: "gas_state cyc a (Suc k) (create_tx cyc a ''ETH'' CREATED GAS_REFILL (Some 1) d)"
      using True \<open>gas_refills cyc a d = []\<close>
      by (simp add: gas_state_def gas_refills_create_tx)
    show ?thesis using r i g by (simp add: gas_refills_create_tx)
  next
    case False
    then have k1: "k = 1" using k by simp
    then obtain g where g: "gas_refills cyc a d = [g]" "gas_tx_count g = Some 1"
      "currency g = ''ETH''" "status g = CREATED"
      using gs by (auto simp add: gas_state_def)
    then have Lg: "?L = [g]" unfolding L by simp
    have gin: "g \<in> set (gas_refills cyc a d)" using g(1) by simp
    then have gmem: "g \<in> set (txs d)" and gacc: "account g = Some a"
      and gcyc: "withdraw_cycle g = Some cyc" and gty: "tx_type g = GAS_REFILL"
      by (simp_all add: gas_refills_def)
    let ?g' = "g\<lparr>gas_tx_count := Some 2\<rparr>"
    have dist: "distinct (map tx_id (txs d))" using inv by (simp add: db_inv_def keys_ok_def)
    have "txs (save_tx g d) = map (\<lambda>r. if r = g then g else r) (txs d)"
      by (rule save_tx_row [OF dist gmem refl])
    then have "txs (save_tx g d) = txs d" by (simp add: map_idI)
    then have same: "save_tx g d = d" by (simp add: save_tx_def)
    have r: "gas_tx_get_or_create cyc a d = (None, save_tx ?g' d)"
      using Lg g(2) same by (simp add: gas_tx_get_or_create_def)
    have rowg: "row_ok (managers d) g" using inv gmem by (simp add: db_inv_def)
    have i: "db_inv (save_tx ?g' d)"
      by (rule db_inv_save_tx [OF inv gmem]) (use rowg in \<open>simp_all add: row_ok_def authorizes_def watches_def\<close>)
    have t: "txs (save_tx ?g' d) = map (\<lambda>r. if r = g then ?g' else r) (txs d)"
      by (rule save_tx_row [OF dist gmem]) simp
    have m: "\<And>b. gas_refills cyc b (save_tx ?g' d)
                  = map (\<lambda>r. if r = g then ?g' else r) (gas_refills cyc b d)"
      by (rule gas_refills_map [OF _ t]) simp
    have ga: "gas_state cyc a (Suc k) (save_tx ?g' d)"
      using k1 g by (simp add: gas_state_def m)
    have other: "\<forall>b. b \<noteq> a \<longrightarrow> gas_refills cyc b (save_tx ?g' d) = gas_refills cyc b d"
    proof (intro allI impI)
      fix b assume "b \<noteq> a"
      then have "g \<notin> set (gas_refills cyc b d)" using gacc by (simp add: gas_refills_def)
      then have "map (\<lambda>r. if r = g then ?g' else r) (gas_refills cyc b d)
                   = gas_refills cyc b d"
        by (intro map_idI) auto
      then show "gas_refills cyc b (save_tx ?g' d) = gas_refills cyc b d"
        by (simp only: m)
    qed
    show ?thesis using r i ga other by simp
  qed
qed

lemma supported_cases:
  "cur \<in> set AVAILABLE_CURRENCIES \<Longrightarrow>
     cur = ''ETH'' \<or> cur = ''BTC'' \<or> cur \<in> set ERC20_CURRENCIES"
  by (auto simp add: AVAILABLE_CURRENCIES_def NATIVE_CURRENCIES_def)

lemma token_not_native:
  "cur \<in> set ERC20_CURRENCIES \<Longrightarrow> cur \<noteq> ''ETH'' \<and> cur \<noteq> ''BTC'' \<and> main_tx_type cur = ERC20"
  by (auto simp add: ERC20_CURRENCIES_def NATIVE_CURRENCIES_def main_tx_type_def)

lemma native_type:
  "main_tx_type ''ETH'' = NATIVE" "main_tx_type ''BTC'' = NATIVE"
  "''ETH'' \<notin> set ERC20_CURRENCIES" "''BTC'' \<notin> set ERC20_CURRENCIES"
  by (simp_all add: ERC20_CURRENCIES_def NATIVE_CURRENCIES_def main_tx_type_def)

lemma plan_withdrawal_effect:
  assumes inv: "db_inv d" and cyc: "cyc < next_cycle_id d"
    and sup: "cur \<in> set AVAILABLE_CURRENCIES"
    and gs: "gas_state cyc a k d" and k: "cur \<in> set ERC20_CURRENCIES \<longrightarrow> k \<le> 1"
  shows "\<exists>d'. plan_withdrawal cyc curs a cur d = (None, d') \<and> db_inv d'
           \<and> gas_state cyc a (k + (if cur \<in> set ERC20_CURRENCIES then 1 else 0)) d'
           \<and> (\<forall>b. b \<noteq> a \<longrightarrow> gas_refills cyc b d' = gas_refills cyc b d)
           \<and> same_frame d d'"
proof -
  consider (eth) "cur = ''ETH''" | (btc) "cur = ''BTC''" | (token) "cur \<in> set ERC20_CURRENCIES"
    using supported_cases [OF sup] by blast
  then show ?thesis
  proof cases
    case eth
    let ?d' = "create_tx cyc a cur WAITING_FOR_ERC20_TRANSFERS NATIVE None d"
    have i: "db_inv ?d'" by (rule db_inv_create_tx [OF inv cyc]) simp_all
    have g: "\<And>b. gas_refills cyc b ?d' = gas_refills cyc b d"
      by (simp add: gas_refills_create_tx)
    have gs': "gas_state cyc a k ?d'" using gs by (simp add: gas_state_def g)
    show ?thesis using eth inv gs i g gs'
      by (simp add: plan_withdrawal_def native_type)
  next
    case btc
    let ?d' = "create_tx cyc a cur CREATED NATIVE None d"
    have i: "db_inv ?d'" by (rule db_inv_create_tx [OF inv cyc]) simp_all
    have g: "\<And>b. gas_refills cyc b ?d' = gas_refills cyc b d"
      by (simp add: gas_refills_create_tx)
    have gs': "gas_state cyc a k ?d'" using gs by (simp add: gas_state_def g)
    show ?thesis using btc i g gs'
      by (simp add: plan_withdrawal_def native_type)
  next
    case token
    then have k1: "k \<le> 1" using k by simp
    note tn = token_not_native [OF token]
    obtain d1 where d1: "gas_tx_get_or_create cyc a d = (None, d1)" "db_inv d1"
        "gas_state cyc a (Suc k) d1"
        "\<forall>b. b \<noteq> a \<longrightarrow> gas_refills cyc b d1 = gas_refills cyc b d" "same_frame d d1"
      using gas_tx_get_or_create_effect [OF inv cyc gs k1] by blast
    have "\<exists>d'. manager_get_or_create
          (\<lambda>m. tm_withdraw_cycle m = Some cyc \<and> tm_account m = Some a
                \<and> queue_type m = QUEUE_ERC20) cyc (Some a) QUEUE_ERC20 d1 = (None, d')
          \<and> db_inv d' \<and> txs d' = txs d1 \<and> same_frame d1 d' \<and> next_tx_id d' = next_tx_id d1"
    proof (rule manager_get_or_create_effect [OF d1(2)])
      show "(Some cyc, QUEUE_ERC20, Some a)
              = (Some cyc, QUEUE_ERC20, if QUEUE_ERC20 = QUEUE_ERC20 then Some a else None)"
        by simp
      show "\<And>m. (tm_withdraw_cycle m = Some cyc \<and> tm_account m = Some a
                   \<and> queue_type m = QUEUE_ERC20)
                = (queue_key m = (Some cyc, QUEUE_ERC20, Some a))"
        by (auto simp add: queue_key_def)
    qed
    then obtain d2 where d2: "manager_get_or_create
          (\<lambda>m. tm_withdraw_cycle m = Some cyc \<and> tm_account m = Some a
                \<and> queue_type m = QUEUE_ERC20) cyc (Some a) QUEUE_ERC20 d1 = (None, d2)"
        "db_inv d2" "txs d2 = txs d1" "same_frame d1 d2"
      by blast
    have "\<exists>d'. manager_get_or_create
          (\<lambda>m. tm_withdraw_cycle m = Some cyc \<and> queue_type m = QUEUE_GAS_REFILL)
          cyc None QUEUE_GAS_REFILL d2 = (None, d')
          \<and> db_inv d' \<and> txs d' = txs d2 \<and> same_frame d2 d' \<and> next_tx_id d' = next_tx_id d2"
    proof (rule manager_get_or_create_effect [OF d2(2)])
      show "(Some cyc, QUEUE_GAS_REFILL, None)
              = (Some cyc, QUEUE_GAS_REFILL,
                 if QUEUE_GAS_REFILL = QUEUE_ERC20 then None else None)"
        by simp
      show "\<And>m. (tm_withdraw_cycle m = Some cyc \<and> queue_type m = QUEUE_GAS_REFILL)
                = (queue_key m = (Some cyc, QUEUE_GAS_REFILL, None))"
        by (auto simp add: queue_key_def)
    qed
    then obtain d3 where d3: "manager_get_or_create
          (\<lambda>m. tm_withdraw_cycle m = Some cyc \<and> queue_type m = QUEUE_GAS_REFILL)
          cyc None QUEUE_GAS_REFILL d2 = (None, d3)"
        "db_inv d3" "txs d3 = txs d2" "same_frame d2 d3"
      by blast
    let ?d' = "create_tx cyc a cur WAITING_FOR_GAS_REFILL ERC20 None d3"
    have cyc3: "cyc < next_cycle_id d3"
      using cyc d1(5) d2(4) d3(4) by (simp add: same_frame_def)
    have i: "db_inv ?d'" by (rule db_inv_create_tx [OF d3(2) cyc3]) simp_all
    have g: "\<And>b. gas_refills cyc b ?d' = gas_refills cyc b d1"
      using gas_refills_txs [OF d3(3)] gas_refills_txs [OF d2(3)]
      by (simp add: gas_refills_create_tx)
    have gs': "gas_state cyc a (Suc k) ?d'" using d1(3) by (simp add: gas_state_def g)
    have fr: "same_frame d ?d'"
      using d1(5) d2(4) d3(4) by (simp add: same_frame_def)
    have r: "plan_withdrawal cyc curs a cur d = (None, ?d')"
      using token tn d1(1) d2(1) d3(1) by (simp add: plan_withdrawal_def)
    show ?thesis using r i gs' g d1(4) fr token by simp
  qed
qed


lemma gas_state_cong:
  "gas_refills cyc b d' = gas_refills cyc b d \<Longrightarrow> gas_state cyc b k d' = gas_state cyc b k d"
  by (simp add: gas_state_def)

lemma inner_loop_effect:
  assumes "db_inv d" and "cyc < next_cycle_id d" and "set cs \<subseteq> set AVAILABLE_CURRENCIES"
    and "gas_state cyc a k d"
    and "k + length (filter (\<lambda>c. c \<in> set ERC20_CURRENCIES) cs) \<le> 2"
  shows "\<exists>d'. for_each (plan_withdrawal cyc curs a) cs d = (None, d') \<and> db_inv d'
           \<and> gas_state cyc a (k + length (filter (\<lambda>c. c \<in> set ERC20_CURRENCIES) cs)) d'
           \<and> (\<forall>b. b \<noteq> a \<longrightarrow> gas_refills cyc b d' = gas_refills cyc b d)
           \<and> same_frame d d'"
  using assms
proof (induction cs arbitrary: d k)
  case Nil
  then show ?case by simp
next
  case (Cons c cs)
  let ?i = "if c \<in> set ERC20_CURRENCIES then 1 else 0 :: nat"
  have sup: "c \<in> set AVAILABLE_CURRENCIES" using Cons.prems(3) by simp
  have k: "c \<in> set ERC20_CURRENCIES \<longrightarrow> k \<le> 1" using Cons.prems(5) by auto
  obtain d1 where d1: "plan_withdrawal cyc curs a c d = (None, d1)" "db_inv d1"
      "gas_state cyc a (k + ?i) d1"
      "\<forall>b. b \<noteq> a \<longrightarrow> gas_refills cyc b d1 = gas_refills cyc b d" "same_frame d d1"
    using plan_withdrawal_effect [OF Cons.prems(1,2) sup Cons.prems(4) k, of curs] by blast
  have cyc1: "cyc < next_cycle_id d1" using Cons.prems(2) d1(5) by (simp add: same_frame_def)
  have sub: "set cs \<subseteq> set AVAILABLE_CURRENCIES" using Cons.prems(3) by simp
  have le: "(k + ?i) + length (filter (\<lambda>c. c \<in> set ERC20_CURRENCIES) cs) \<le> 2"
    using Cons.prems(5) by auto
  obtain d2 where d2: "for_each (plan_withdrawal cyc curs a) cs d1 = (None, d2)" "db_inv d2"
      "gas_state cyc a ((k + ?i) + length (filter (\<lambda>c. c \<in> set ERC20_CURRENCIES) cs)) d2"
      "\<forall>b. b \<noteq> a \<longrightarrow> gas_refills cyc b d2 = gas_refills cyc b d1" "same_frame d1 d2"
    using Cons.IH [OF d1(2) cyc1 sub d1(3) le] by blast
  have r: "for_each (plan_withdrawal cyc curs a) (c # cs) d = (None, d2)"
    using d1(1) d2(1) by simp
  have n: "(k + ?i) + length (filter (\<lambda>c. c \<in> set ERC20_CURRENCIES) cs)
             = k + length (filter (\<lambda>c. c \<in> set ERC20_CURRENCIES) (c # cs))"
    by simp
  have fr: "same_frame d d2" using d1(5) d2(5) by (rule same_frame_trans)
  have other: "\<forall>b. b \<noteq> a \<longrightarrow> gas_refills cyc b d2 = gas_refills cyc b d"
    using d1(4) d2(4) by simp
  show ?case using r d2(2) d2(3) other fr unfolding n by blast
qed

lemma outer_loop_effect:
  assumes "db_inv d" and "cyc < next_cycle_id d" and "set curs \<subseteq> set AVAILABLE_CURRENCIES"
    and "length (filter (\<lambda>c. c \<in> set ERC20_CURRENCIES) curs) \<le> 2"
    and "distinct (map purchase_id accts)"
    and "\<forall>a \<in> set accts. gas_state cyc (purchase_id a) 0 d"
  shows "\<exists>d'. for_each (\<lambda>acct. for_each (plan_withdrawal cyc curs (purchase_id acct)) curs)
                 accts d = (None, d') \<and> db_inv d'
           \<and> (\<forall>a \<in> set accts. gas_state cyc (purchase_id a)
                  (length (filter (\<lambda>c. c \<in> set ERC20_CURRENCIES) curs)) d')
           \<and> (\<forall>b. b \<notin> purchase_id ` set accts \<longrightarrow> gas_refills cyc b d' = gas_refills cyc b d)
           \<and> same_frame d d'"
  using assms(1,2,5,6)
proof (induction accts arbitrary: d)
  case Nil
  then show ?case by simp
next
  case (Cons a accts)
  let ?n = "length (filter (\<lambda>c. c \<in> set ERC20_CURRENCIES) curs)"
  have g0: "gas_state cyc (purchase_id a) 0 d" using Cons.prems(4) by simp
  have le: "0 + ?n \<le> 2" using assms(4) by simp
  obtain d1 where d1: "for_each (plan_withdrawal cyc curs (purchase_id a)) curs d = (None, d1)"
      "db_inv d1" "gas_state cyc (purchase_id a) (0 + ?n) d1"
      "\<forall>b. b \<noteq> purchase_id a \<longrightarrow> gas_refills cyc b d1 = gas_refills cyc b d"
      "same_frame d d1"
    using inner_loop_effect [OF Cons.prems(1,2) assms(3) g0 le, of curs] by blast
  have cyc1: "cyc < next_cycle_id d1" using Cons.prems(2) d1(5) by (simp add: same_frame_def)
  have dist: "distinct (map purchase_id accts)" and na: "purchase_id a \<notin> purchase_id ` set accts"
    using Cons.prems(3) by simp_all
  have rest: "\<forall>b \<in> set accts. gas_state cyc (purchase_id b) 0 d1"
  proof
    fix b assume b: "b \<in> set accts"
    have "purchase_id b \<in> purchase_id ` set accts" using b by (rule imageI)
    then have "purchase_id b \<noteq> purchase_id a" using na by auto
    then have "gas_refills cyc (purchase_id b) d1 = gas_refills cyc (purchase_id b) d"
      using d1(4) by simp
    then have "gas_state cyc (purchase_id b) 0 d1 = gas_state cyc (purchase_id b) 0 d"
      by (rule gas_state_cong)
    then show "gas_state cyc (purchase_id b) 0 d1"
      using Cons.prems(4) b by simp
  qed
  have "\<exists>d'. for_each (\<lambda>acct. for_each (plan_withdrawal cyc curs (purchase_id acct)) curs)
                 accts d1 = (None, d') \<and> db_inv d'
           \<and> (\<forall>a \<in> set accts. gas_state cyc (purchase_id a) ?n d')
           \<and> (\<forall>b. b \<notin> purchase_id ` set accts \<longrightarrow> gas_refills cyc b d' = gas_refills cyc b d1)
           \<and> same_frame d1 d'"
    by (rule Cons.IH [OF d1(2) cyc1 dist rest])
  then obtain d2 where d2c:
      "for_each (\<lambda>acct. for_each (plan_withdrawal cyc curs (purchase_id acct)) curs)
                 accts d1 = (None, d2) \<and> db_inv d2
           \<and> (\<forall>a \<in> set accts. gas_state cyc (purchase_id a) ?n d2)
           \<and> (\<forall>b. b \<notin> purchase_id ` set accts \<longrightarrow> gas_refills cyc b d2 = gas_refills cyc b d1)
           \<and> same_frame d1 d2" ..
  have d2: "for_each (\<lambda>acct. for_each (plan_withdrawal cyc curs (purchase_id acct)) curs)
                         accts d1 = (None, d2)" "db_inv d2"
      "\<forall>b \<in> set accts. gas_state cyc (purchase_id b) ?n d2"
      "\<forall>b. b \<notin> purchase_id ` set accts \<longrightarrow> gas_refills cyc b d2 = gas_refills cyc b d1"
      "same_frame d1 d2"
    using d2c by simp_all
  have r: "for_each (\<lambda>acct. for_each (plan_withdrawal cyc curs (purchase_id acct)) curs)
             (a # accts) d = (None, d2)"
    using d1(1) d2(1) by simp
  have "gas_refills cyc (purchase_id a) d2 = gas_refills cyc (purchase_id a) d1"
    using d2(4) na by simp
  then have "gas_state cyc (purchase_id a) ?n d2 = gas_state cyc (purchase_id a) ?n d1"
    by (rule gas_state_cong)
  then have ga: "gas_state cyc (purchase_id a) ?n d2"
    using d1(3) by simp
  have other: "\<forall>b. b \<notin> purchase_id ` set (a # accts) \<longrightarrow> gas_refills cyc b d2 = gas_refills cyc b d"
    using d1(4) d2(4) by simp
  have fr: "same_frame d d2" using d1(5) d2(5) by (rule same_frame_trans)
  have alla: "\<forall>b \<in> set (a # accts). gas_state cyc (purchase_id b) ?n d2"
    using ga d2(3) by simp
  show ?case
  proof (intro exI conjI)
    show "for_each (\<lambda>acct. for_each (plan_withdrawal cyc curs (purchase_id acct)) curs)
            (a # accts) d = (None, d2)" by (rule r)
    show "db_inv d2" by (rule d2(2))
    show "\<forall>b \<in> set (a # accts). gas_state cyc (purchase_id b) ?n d2" by (rule alla)
    show "\<forall>b. b \<notin> purchase_id ` set (a # accts) \<longrightarrow>
            gas_refills cyc b d2 = gas_refills cyc b d" by (rule other)
    show "same_frame d d2" by (rule fr)
  qed
qed

lemma token_count_le_2:
  assumes "distinct cs"
  shows "length (filter (\<lambda>c. c \<in> set ERC20_CURRENCIES) cs) \<le> 2"
proof -
  have "distinct (filter (\<lambda>c. c \<in> set ERC20_CURRENCIES) cs)" using assms by simp
  then have "length (filter (\<lambda>c. c \<in> set ERC20_CURRENCIES) cs)
               = card (set (filter (\<lambda>c. c \<in> set ERC20_CURRENCIES) cs))"
    by (rule distinct_card [symmetric])
  also have "\<dots> \<le> card (set ERC20_CURRENCIES)"
    by (rule card_mono) auto
  also have "\<dots> = 2" by (simp add: ERC20_CURRENCIES_def)
  finally show ?thesis .
qed

lemma pop_unsupported_ok:
  "set cs \<subseteq> set AVAILABLE_CURRENCIES \<Longrightarrow> pop_unsupported cs = ([], None)"
  by (induction cs) simp_all

lemma pop_unsupported_raises:
  "\<not> set cs \<subseteq> set AVAILABLE_CURRENCIES \<Longrightarrow>
     pop_unsupported cs
       = ([Log WARNING ''Skipping currency: is not in supported list''], Some TypeError)"
  by (induction cs) auto


lemma db_inv_save_cycle: "db_inv (save_cycle c d) = db_inv d"
  by (simp add: db_inv_def keys_ok_def queues_ok_def)

lemma db_inv_new_cycle:
  assumes "db_inv d"
  shows "db_inv (d\<lparr>cycles := cycles d @ [c], next_cycle_id := Suc (next_cycle_id d)\<rparr>)"
  using assms by (auto simp add: db_inv_def keys_ok_def queues_ok_def less_Suc_eq)

lemma gas_refills_fresh:
  assumes "db_inv d"
  shows "gas_refills (next_cycle_id d) a d = []"
proof -
  have "\<forall>t \<in> set (txs d). withdraw_cycle t \<noteq> Some (next_cycle_id d)"
    using assms by (fastforce simp add: db_inv_def keys_ok_def)
  then show ?thesis by (simp add: gas_refills_def filter_empty_conv)
qed

lemma create_withdraw_cycle_selects:
  assumes "\<forall>given. arg = Some given \<longrightarrow> set given \<subseteq> set AVAILABLE_CURRENCIES"
  shows "\<exists>curs0. (case arg of
              None \<Rightarrow> (AVAILABLE_CURRENCIES, [], None)
            | Some [] \<Rightarrow> (AVAILABLE_CURRENCIES, [], None)
            | Some given \<Rightarrow>
                (case pop_unsupported (remdups given) of
                   (tr, err) \<Rightarrow> (remdups given, tr, err))) = (curs0, [], None)
          \<and> sort curs0 = requested_currencies arg \<and> distinct curs0
          \<and> set curs0 \<subseteq> set AVAILABLE_CURRENCIES"
proof (cases arg)
  case None
  then show ?thesis
    by (simp add: requested_currencies_def AVAILABLE_CURRENCIES_def NATIVE_CURRENCIES_def
        ERC20_CURRENCIES_def)
next
  case (Some given)
  show ?thesis
  proof (cases given)
    case Nil
    then show ?thesis using Some
      by (simp add: requested_currencies_def AVAILABLE_CURRENCIES_def NATIVE_CURRENCIES_def
          ERC20_CURRENCIES_def)
  next
    case (Cons c cs)
    have "set (remdups given) \<subseteq> set AVAILABLE_CURRENCIES" using assms Some by simp
    then have "pop_unsupported (remdups given) = ([], None)" by (rule pop_unsupported_ok)
    then show ?thesis using Some Cons assms
      by (simp add: requested_currencies_def del: remdups.simps)
  qed
qed

lemma create_withdraw_cycle_supported:
  assumes inv: "db_inv d"
    and sup: "\<forall>given. arg = Some given \<longrightarrow> set given \<subseteq> set AVAILABLE_CURRENCIES"
  shows "raised (create_withdraw_cycle arg d) = None
       \<and> trace (create_withdraw_cycle arg d) = []
       \<and> db_inv (db_after (create_withdraw_cycle arg d))
       \<and> (\<forall>a \<in> set (purchases d).
             gas_state (next_cycle_id d) (purchase_id a)
               (length (filter (\<lambda>c. c \<in> set ERC20_CURRENCIES) (requested_currencies arg)))
               (db_after (create_withdraw_cycle arg d)))
       \<and> \<lparr>cycle_id = next_cycle_id d, currencies = requested_currencies arg,
           cycle_status = CYCLE_PENDING\<rparr> \<in> set (cycles (db_after (create_withdraw_cycle arg d)))"
proof -
  obtain curs0 where sel: "(case arg of
              None \<Rightarrow> (AVAILABLE_CURRENCIES, [], None)
            | Some [] \<Rightarrow> (AVAILABLE_CURRENCIES, [], None)
            | Some given \<Rightarrow>
                (case pop_unsupported (remdups given) of
                   (tr, err) \<Rightarrow> (remdups given, tr, err))) = (curs0, [], None)"
      and srt: "sort curs0 = requested_currencies arg" and dist0: "distinct curs0"
      and sub0: "set curs0 \<subseteq> set AVAILABLE_CURRENCIES"
    using create_withdraw_cycle_selects [OF sup] by blast
  let ?curs = "requested_currencies arg"
  let ?cyc = "next_cycle_id d"
  let ?cycle = "\<lparr>cycle_id = ?cyc, currencies = ?curs, cycle_status = CYCLE_CREATED\<rparr>"
  let ?d1 = "d\<lparr>cycles := cycles d @ [?cycle], next_cycle_id := Suc ?cyc\<rparr>"
  let ?n = "length (filter (\<lambda>c. c \<in> set ERC20_CURRENCIES) ?curs)"
  have distc: "distinct ?curs" and subc: "set ?curs \<subseteq> set AVAILABLE_CURRENCIES"
    using dist0 sub0 srt [symmetric] by simp_all
  have inv1: "db_inv ?d1" by (rule db_inv_new_cycle [OF inv])
  have cyc1: "?cyc < next_cycle_id ?d1" by simp
  have n2: "?n \<le> 2" by (rule token_count_le_2 [OF distc])
  have dp: "distinct (map purchase_id (purchases ?d1))"
    using inv by (simp add: db_inv_def keys_ok_def)
  have g0: "\<forall>a \<in> set (purchases ?d1). gas_state ?cyc (purchase_id a) 0 ?d1"
    using gas_refills_fresh [OF inv] by (simp add: gas_state_def gas_refills_def)
  have "\<exists>d'. for_each (\<lambda>acct. for_each (plan_withdrawal ?cyc ?curs (purchase_id acct)) ?curs)
                 (purchases ?d1) ?d1 = (None, d') \<and> db_inv d'
           \<and> (\<forall>a \<in> set (purchases ?d1). gas_state ?cyc (purchase_id a) ?n d')
           \<and> (\<forall>b. b \<notin> purchase_id ` set (purchases ?d1) \<longrightarrow>
                  gas_refills ?cyc b d' = gas_refills ?cyc b ?d1)
           \<and> same_frame ?d1 d'"
    by (rule outer_loop_effect [OF inv1 cyc1 subc n2 dp g0])
  then obtain d2 where d2c:
      "for_each (\<lambda>acct. for_each (plan_withdrawal ?cyc ?curs (purchase_id acct)) ?curs)
                 (purchases ?d1) ?d1 = (None, d2) \<and> db_inv d2
           \<and> (\<forall>a \<in> set (purchases ?d1). gas_state ?cyc (purchase_id a) ?n d2)
           \<and> (\<forall>b. b \<notin> purchase_id ` set (purchases ?d1) \<longrightarrow>
                  gas_refills ?cyc b d2 = gas_refills ?cyc b ?d1)
           \<and> same_frame ?d1 d2" ..
  have loop: "for_each (\<lambda>acct. for_each (plan_withdrawal ?cyc ?curs (purchase_id acct)) ?curs)
                 (purchases ?d1) ?d1 = (None, d2)"
    and inv2: "db_inv d2"
    and gs2: "\<forall>a \<in> set (purchases ?d1). gas_state ?cyc (purchase_id a) ?n d2"
    using d2c by simp_all
  let ?done = "?cycle\<lparr>cycle_status := CYCLE_PENDING\<rparr>"
  have run: "create_withdraw_cycle arg d = returns () (save_cycle ?done d2) []"
    unfolding create_withdraw_cycle_def sel using loop srt by (simp add: Let_def)
  have c1: "raised (create_withdraw_cycle arg d) = None" by (simp add: run returns_simps)
  have c2: "trace (create_withdraw_cycle arg d) = []" by (simp add: run returns_simps)
  have c3: "db_inv (db_after (create_withdraw_cycle arg d))"
    using inv2 by (simp add: run returns_simps db_inv_save_cycle)
  have c4: "\<forall>a \<in> set (purchases d). gas_state ?cyc (purchase_id a) ?n
               (db_after (create_withdraw_cycle arg d))"
    using gs2 by (simp add: run returns_simps gas_state_def gas_refills_def)
  have "?done \<in> set (cycles (save_cycle ?done d2))" by (rule save_cycle_mem)
  then have c5: "\<lparr>cycle_id = ?cyc, currencies = ?curs, cycle_status = CYCLE_PENDING\<rparr>
                   \<in> set (cycles (db_after (create_withdraw_cycle arg d)))"
    by (simp add: run returns_simps)
  from c1 c2 c3 c4 c5 show ?thesis by (intro conjI)
qed

lemma create_withdraw_cycle_unsupported:
  assumes "\<not> set given \<subseteq> set AVAILABLE_CURRENCIES"
  shows "create_withdraw_cycle (Some given) d
           = raises TypeError () d [Log WARNING ''Skipping currency: is not in supported list'']"
proof -
  have "\<not> set (remdups given) \<subseteq> set AVAILABLE_CURRENCIES" using assms by simp
  then have p: "pop_unsupported (remdups given)
       = ([Log WARNING ''Skipping currency: is not in supported list''], Some TypeError)"
    by (rule pop_unsupported_raises)
  obtain c cs where "given = c # cs" using assms by (cases given) auto
  then show ?thesis
    unfolding create_withdraw_cycle_def using p by (simp del: remdups.simps)
qed


section \<open>Cycle creation\<close>

lemma length_filter_sort: "length (filter P (sort xs)) = length (filter P xs)"
  by (simp add: filter_sort)

lemma db_inv_empty: "distinct (map purchase_id ps) \<Longrightarrow> db_inv (empty_db ps)"
  by (simp add: db_inv_def keys_ok_def queues_ok_def empty_db_def)

text \<open>
  C3. In a well-formed database, for a call whose currencies are all supported and every
  account: the call returns, and when at least one token currency (USDT, USDC) is among
  the requested ones, the account has exactly one gas refill in the new cycle; it is of
  currency ETH, in \<open>CREATED\<close>, and its \<open>gas_tx_count\<close> is the number of
  requested token currencies.
\<close>

theorem one_gas_refill_per_account:
  assumes "db_inv d"
    and "\<forall>given. arg = Some given \<longrightarrow> set given \<subseteq> set AVAILABLE_CURRENCIES"
    and "acct \<in> set (purchases d)"
    and "filter (\<lambda>c. c \<in> set ERC20_CURRENCIES) (requested_currencies arg) \<noteq> []"
  shows "raised (create_withdraw_cycle arg d) = None
       \<and> (\<exists>g. gas_refills (next_cycle_id d) (purchase_id acct)
                 (db_after (create_withdraw_cycle arg d)) = [g]
              \<and> gas_tx_count g
                  = Some (int (length (filter (\<lambda>c. c \<in> set ERC20_CURRENCIES)
                                         (requested_currencies arg))))
              \<and> currency g = ''ETH'' \<and> status g = CREATED)"
proof -
  let ?n = "length (filter (\<lambda>c. c \<in> set ERC20_CURRENCIES) (requested_currencies arg))"
  have n: "?n \<noteq> 0" using assms(4) by simp
  have "gas_state (next_cycle_id d) (purchase_id acct) ?n (db_after (create_withdraw_cycle arg d))"
    using create_withdraw_cycle_supported [OF assms(1,2)] assms(3) by blast
  then have "map (\<lambda>g. (gas_tx_count g, currency g, status g))
               (gas_refills (next_cycle_id d) (purchase_id acct)
                  (db_after (create_withdraw_cycle arg d)))
             = [(Some (int ?n), ''ETH'', CREATED)]"
    using n unfolding gas_state_def by simp
  then have "\<exists>g. gas_refills (next_cycle_id d) (purchase_id acct)
                 (db_after (create_withdraw_cycle arg d)) = [g]
              \<and> gas_tx_count g = Some (int ?n) \<and> currency g = ''ETH'' \<and> status g = CREATED"
    by (auto simp add: map_eq_Cons_conv)
  then show ?thesis using create_withdraw_cycle_supported [OF assms(1,2)] by blast
qed

theorem one_gas_refill_per_account_witness:
  "db_inv (empty_db [example_account])
   \<and> length (filter (\<lambda>c. c \<in> set ERC20_CURRENCIES)
        (requested_currencies (Some [''USDT'', ''BTC'', ''USDC'', ''USDT'']))) = 2
   \<and> (\<exists>g. gas_refills 1 1
             (db_after (create_withdraw_cycle (Some [''USDT'', ''BTC'', ''USDC'', ''USDT''])
                (empty_db [example_account]))) = [g]
          \<and> gas_tx_count g = Some 2)"
  using one_gas_refill_per_account [of "empty_db [example_account]"
      "Some [''USDT'', ''BTC'', ''USDC'', ''USDT'']" example_account]
  by (simp add: db_inv_empty requested_currencies_def length_filter_sort
      AVAILABLE_CURRENCIES_def NATIVE_CURRENCIES_def ERC20_CURRENCIES_def)
     (auto simp add: empty_db_def example_account_def)

text \<open>
  C2. An unsupported entry aborts the creation: for the list BTC, DOGE the call logs the
  warning and raises \<open>TypeError\<close> (from \<open>currencies.pop(currency)\<close>), and no
  cycle and no transaction is created. For supported lists the cycle is created with the
  sorted, deduplicated list (\<open>create_withdraw_cycle_supported\<close>).
\<close>

theorem unsupported_currency_aborts_creation:
  "raised (create_withdraw_cycle (Some [''BTC'', ''DOGE'']) (empty_db [example_account]))
     = Some TypeError
   \<and> trace (create_withdraw_cycle (Some [''BTC'', ''DOGE'']) (empty_db [example_account]))
     = [Log WARNING ''Skipping currency: is not in supported list'']
   \<and> cycles (db_after (create_withdraw_cycle (Some [''BTC'', ''DOGE''])
        (empty_db [example_account]))) = []
   \<and> txs (db_after (create_withdraw_cycle (Some [''BTC'', ''DOGE''])
        (empty_db [example_account]))) = []"
  using create_withdraw_cycle_unsupported [of "[''BTC'', ''DOGE'']" "empty_db [example_account]"]
  by (simp add: raises_simps AVAILABLE_CURRENCIES_def NATIVE_CURRENCIES_def ERC20_CURRENCIES_def
      empty_db_def)

section \<open>Every reachable database is well-formed\<close>































section \<open>One transaction in flight per queue\<close>


















end
